theory Spec2Isabelle
  imports Complex_Main
begin

section \<open>Values, documents and errors\<close>

text \<open>
  The builder of \<^verbatim>\<open>build_movies_complete.py\<close> reads eight flat collections whose
  documents are Python dicts from a field name to a column value. The columns of the
  schema are TEXT, INTEGER and REAL, all nullable unless declared otherwise, so a value
  is null, a number or a string. Python compares an int and a float by their exact
  mathematical value (\<open>1 == 1.0\<close>, also as dict keys); numbers are therefore reals.
\<close>

datatype val = VNone | VNum real | VStr string

type_synonym document = "string \<rightharpoonup> val"

datatype error = KeyError string | BulkWriteError | InvalidOperation

text \<open>\<^verbatim>\<open>d[k]\<close> on a document: raises KeyError when the field is absent.\<close>

definition getitem :: "document \<Rightarrow> string \<Rightarrow> error + val" where
  "getitem d k = (case d k of None \<Rightarrow> Inl (KeyError k) | Some v \<Rightarrow> Inr v)"

text \<open>\<^verbatim>\<open>d.get(k, default)\<close>: never raises.\<close>

definition dict_get :: "('k \<rightharpoonup> 'v) \<Rightarrow> 'k \<Rightarrow> 'v \<Rightarrow> 'v" where
  "dict_get m k dflt = (case m k of None \<Rightarrow> dflt | Some v \<Rightarrow> v)"

text \<open>Sequencing: an exception raised by the first computation skips the rest.\<close>

definition bnd :: "error + 'a \<Rightarrow> ('a \<Rightarrow> error + 'b) \<Rightarrow> error + 'b" where
  "bnd r f = (case r of Inl e \<Rightarrow> Inl e | Inr x \<Rightarrow> f x)"

text \<open>A \<^verbatim>\<open>for\<close> loop over a cursor, updating local state; it stops at the first exception.\<close>

fun for_each :: "('s \<Rightarrow> 'a \<Rightarrow> error + 's) \<Rightarrow> 's \<Rightarrow> 'a list \<Rightarrow> error + 's" where
  "for_each f s [] = Inr s"
| "for_each f s (x # xs) = (case f s x of Inl e \<Rightarrow> Inl e | Inr s' \<Rightarrow> for_each f s' xs)"

section \<open>The composite document\<close>

record rating_doc =
  average :: val
  votes :: val

record person_ref =
  person_id :: val
  name :: val

record cast_entry = person_ref +
  characters :: "val list"

text \<open>The field \<^verbatim>\<open>_id\<close> of the output document is \<open>doc_id\<close> here.\<close>

record complete_doc =
  doc_id :: val
  title :: val
  year :: val
  runtime :: val
  rating :: rating_doc
  genres :: "val list"
  directors :: "person_ref list"
  cast :: "cast_entry list"
  writers :: "person_ref list"

text \<open>The source collections, each in the order its cursor yields it.\<close>

record database =
  db_movies :: "document list"
  db_ratings :: "document list"
  db_genres :: "document list"
  db_persons :: "document list"
  db_directors :: "document list"
  db_principals :: "document list"
  db_characters :: "document list"
  db_writers :: "document list"

section \<open>Steps 2 to 7: the in-memory indexes\<close>

text \<open>
  Step 2. \<^verbatim>\<open>ratings_dict[rating["movie_id"]] = {"average": ..., "votes": ...}\<close>: Python
  evaluates the right-hand side before the subscript of the target.
\<close>

definition add_rating :: "(val \<rightharpoonup> rating_doc) \<Rightarrow> document \<Rightarrow> error + (val \<rightharpoonup> rating_doc)" where
  "add_rating ratings_dict r =
     bnd (getitem r ''average_rating'') (\<lambda>a.
     bnd (getitem r ''num_votes'') (\<lambda>v.
     bnd (getitem r ''movie_id'') (\<lambda>m.
       Inr (ratings_dict(m \<mapsto> \<lparr>average = a, votes = v\<rparr>)))))"

text \<open>Step 3. A list per movie, created empty at the movie's first row.\<close>

definition add_genre :: "(val \<rightharpoonup> val list) \<Rightarrow> document \<Rightarrow> error + (val \<rightharpoonup> val list)" where
  "add_genre genres_dict r =
     bnd (getitem r ''movie_id'') (\<lambda>m.
     bnd (getitem r ''genre'') (\<lambda>g.
       Inr (genres_dict(m \<mapsto> dict_get genres_dict m [] @ [g]))))"

text \<open>Step 4. \<^verbatim>\<open>persons_dict[person["person_id"]] = person["name"]\<close>.\<close>

definition add_person :: "(val \<rightharpoonup> val) \<Rightarrow> document \<Rightarrow> error + (val \<rightharpoonup> val)" where
  "add_person persons_dict r =
     bnd (getitem r ''name'') (\<lambda>n.
     bnd (getitem r ''person_id'') (\<lambda>p.
       Inr (persons_dict(p \<mapsto> n))))"

text \<open>\<^verbatim>\<open>persons_dict.get(person_id, "Unknown")\<close>.\<close>

definition person_name :: "(val \<rightharpoonup> val) \<Rightarrow> val \<Rightarrow> val" where
  "person_name persons_dict p = dict_get persons_dict p (VStr ''Unknown'')"

text \<open>
  Steps 5 and 7. The loops over \<^verbatim>\<open>directors\<close> and over \<^verbatim>\<open>writers\<close> have the same body,
  on \<^verbatim>\<open>directors_dict\<close> and on \<^verbatim>\<open>writers_dict\<close>.
\<close>

definition add_credit ::
  "(val \<rightharpoonup> val) \<Rightarrow> (val \<rightharpoonup> person_ref list) \<Rightarrow> document \<Rightarrow> error + (val \<rightharpoonup> person_ref list)" where
  "add_credit persons_dict credits_dict r =
     bnd (getitem r ''movie_id'') (\<lambda>m.
     bnd (getitem r ''person_id'') (\<lambda>p.
       Inr (credits_dict(m \<mapsto> dict_get credits_dict m []
              @ [\<lparr>person_id = p, name = person_name persons_dict p\<rparr>]))))"

text \<open>
  Step 6. \<^verbatim>\<open>cast_dict[movie_id]\<close> is a dict keyed by person; Python dicts keep insertion
  order and \<^verbatim>\<open>.values()\<close> reads it, so the inner dict is an association list with
  distinct keys, a new key going to the end.
\<close>

type_synonym cast_map = "(val \<times> cast_entry) list"

definition add_principal ::
  "(val \<rightharpoonup> val) \<Rightarrow> (val \<rightharpoonup> cast_map) \<Rightarrow> document \<Rightarrow> error + (val \<rightharpoonup> cast_map)" where
  "add_principal persons_dict cast_dict r =
     bnd (getitem r ''movie_id'') (\<lambda>m.
     bnd (getitem r ''person_id'') (\<lambda>p.
       let inner = dict_get cast_dict m [] in
       Inr (cast_dict(m \<mapsto>
         (case map_of inner p of
            None \<Rightarrow> inner @ [(p, \<lparr>person_id = p, name = person_name persons_dict p,
                                 characters = []\<rparr>)]
          | Some _ \<Rightarrow> inner)))))"

text \<open>Updating the value stored under a key of the inner dict, in place.\<close>

fun update_entry :: "'k \<Rightarrow> ('v \<Rightarrow> 'v) \<Rightarrow> ('k \<times> 'v) list \<Rightarrow> ('k \<times> 'v) list" where
  "update_entry k f [] = []"
| "update_entry k f ((k', v) # kvs) =
     (if k' = k then (k', f v) # kvs else (k', v) # update_entry k f kvs)"

text \<open>
  Step 6b. The two membership tests guard the append: \<^verbatim>\<open>character["person_id"]\<close> is read
  only for a movie of \<^verbatim>\<open>cast_dict\<close>, \<^verbatim>\<open>character["name"]\<close> only for a person of that movie.
\<close>

definition add_character :: "(val \<rightharpoonup> cast_map) \<Rightarrow> document \<Rightarrow> error + (val \<rightharpoonup> cast_map)" where
  "add_character cast_dict r =
     bnd (getitem r ''movie_id'') (\<lambda>m.
       case cast_dict m of
         None \<Rightarrow> Inr cast_dict
       | Some inner \<Rightarrow>
           bnd (getitem r ''person_id'') (\<lambda>p.
             case map_of inner p of
               None \<Rightarrow> Inr cast_dict
             | Some _ \<Rightarrow>
                 bnd (getitem r ''name'') (\<lambda>c.
                   Inr (cast_dict(m \<mapsto>
                     update_entry p (\<lambda>e. e\<lparr>characters := characters e @ [c]\<rparr>) inner)))))"

section \<open>Step 8: the documents\<close>

text \<open>
  The body of the loop over \<^verbatim>\<open>movies\<close>. The subscripts raise in the order the source
  evaluates them: \<^verbatim>\<open>movie["movie_id"]\<close> first, then \<^verbatim>\<open>movie["primary_title"]\<close> and
  \<^verbatim>\<open>movie["start_year"]\<close> inside the dict literal; every other field is read with
  \<^verbatim>\<open>.get\<close> and a default.
\<close>

definition make_doc ::
  "(val \<rightharpoonup> rating_doc) \<Rightarrow> (val \<rightharpoonup> val list) \<Rightarrow> (val \<rightharpoonup> person_ref list) \<Rightarrow>
   (val \<rightharpoonup> cast_map) \<Rightarrow> (val \<rightharpoonup> person_ref list) \<Rightarrow> document \<Rightarrow> error + complete_doc" where
  "make_doc ratings_dict genres_dict directors_dict cast_dict writers_dict movie =
     bnd (getitem movie ''movie_id'') (\<lambda>movie_id.
       let cast_list = (if cast_dict movie_id \<noteq> None
                        then map snd (dict_get cast_dict movie_id []) else []) in
       bnd (getitem movie ''primary_title'') (\<lambda>t.
       bnd (getitem movie ''start_year'') (\<lambda>y.
         Inr \<lparr>doc_id = movie_id, title = t, year = y,
              runtime = dict_get movie ''runtime_minutes'' VNone,
              rating = dict_get ratings_dict movie_id \<lparr>average = VNone, votes = VNum 0\<rparr>,
              genres = dict_get genres_dict movie_id [],
              directors = dict_get directors_dict movie_id [],
              cast = cast_list,
              writers = dict_get writers_dict movie_id []\<rparr>)))"

definition assemble ::
  "(val \<rightharpoonup> rating_doc) \<Rightarrow> (val \<rightharpoonup> val list) \<Rightarrow> (val \<rightharpoonup> person_ref list) \<Rightarrow>
   (val \<rightharpoonup> cast_map) \<Rightarrow> (val \<rightharpoonup> person_ref list) \<Rightarrow> document list \<Rightarrow>
   error + complete_doc list" where
  "assemble ratings_dict genres_dict directors_dict cast_dict writers_dict movies =
     for_each (\<lambda>complete_movies movie.
         bnd (make_doc ratings_dict genres_dict directors_dict cast_dict writers_dict movie)
           (\<lambda>complete_doc. Inr (complete_movies @ [complete_doc])))
       [] movies"

text \<open>Steps 2 to 8 in the order of the source: the first exception ends the build.\<close>

definition build_documents :: "database \<Rightarrow> error + complete_doc list" where
  "build_documents db =
     bnd (for_each add_rating Map.empty (db_ratings db)) (\<lambda>ratings_dict.
     bnd (for_each add_genre Map.empty (db_genres db)) (\<lambda>genres_dict.
     bnd (for_each add_person Map.empty (db_persons db)) (\<lambda>persons_dict.
     bnd (for_each (add_credit persons_dict) Map.empty (db_directors db)) (\<lambda>directors_dict.
     bnd (for_each (add_principal persons_dict) Map.empty (db_principals db)) (\<lambda>cast_dict0.
     bnd (for_each add_character cast_dict0 (db_characters db)) (\<lambda>cast_dict.
     bnd (for_each (add_credit persons_dict) Map.empty (db_writers db)) (\<lambda>writers_dict.
       assemble ratings_dict genres_dict directors_dict cast_dict writers_dict
         (db_movies db))))))))"

section \<open>Steps 9 and 10: the destination collection\<close>

text \<open>
  The destination collection \<^verbatim>\<open>movies_complete\<close>: its documents in insertion order and the
  keys of the indexes created on it. The builder calls \<^verbatim>\<open>drop\<close>, \<^verbatim>\<open>insert_many\<close> and
  \<^verbatim>\<open>create_index\<close> on it.
\<close>

datatype store_op = Drop | InsertMany "complete_doc list" | CreateIndex string

record collection =
  coll_docs :: "complete_doc list"
  coll_indexes :: "string set"

text \<open>
  \<^verbatim>\<open>insert_many\<close> with its default \<^verbatim>\<open>ordered=True\<close> inserts the documents of the batch one
  by one, in order. The \<^verbatim>\<open>_id\<close> of a collection is unique: at the first document whose
  \<^verbatim>\<open>_id\<close> is already in the collection the call raises \<^verbatim>\<open>BulkWriteError\<close>; the documents
  before it stay inserted, those after it are not. On an empty list the call raises
  \<^verbatim>\<open>InvalidOperation\<close>. A store that cannot be reached is not modelled.
\<close>

fun insert_ordered :: "collection \<Rightarrow> complete_doc list \<Rightarrow> error option \<times> collection" where
  "insert_ordered c [] = (None, c)"
| "insert_ordered c (d # ds) =
     (if doc_id d \<in> set (map doc_id (coll_docs c)) then (Some BulkWriteError, c)
      else insert_ordered (c\<lparr>coll_docs := coll_docs c @ [d]\<rparr>) ds)"

definition insert_many :: "collection \<Rightarrow> complete_doc list \<Rightarrow> error option \<times> collection" where
  "insert_many c batch =
     (if batch = [] then (Some InvalidOperation, c) else insert_ordered c batch)"

text \<open>
  One call: the exception it raises, if any, and the collection after it. \<^verbatim>\<open>drop\<close> removes
  the documents and the indexes; \<^verbatim>\<open>create_index\<close> on a key that has an index changes nothing.
\<close>

fun exec_op :: "collection \<Rightarrow> store_op \<Rightarrow> error option \<times> collection" where
  "exec_op c Drop = (None, \<lparr>coll_docs = [], coll_indexes = {}\<rparr>)"
| "exec_op c (InsertMany batch) = insert_many c batch"
| "exec_op c (CreateIndex k) = (None, c\<lparr>coll_indexes := insert k (coll_indexes c)\<rparr>)"

text \<open>
  Calls in sequence: the first exception ends them. The result is the exception, the calls
  that were made (the one that raised is the last) and the collection they leave.
\<close>

fun exec_ops :: "collection \<Rightarrow> store_op list \<Rightarrow> error option \<times> store_op list \<times> collection" where
  "exec_ops c [] = (None, [], c)"
| "exec_ops c (call # calls) =
     (case exec_op c call of
        (Some e, c') \<Rightarrow> (Some e, [call], c')
      | (None, c') \<Rightarrow>
          (case exec_ops c' calls of (e, made, c'') \<Rightarrow> (e, call # made, c'')))"

definition batch_size :: nat where
  "batch_size = 1000"

text \<open>\<^verbatim>\<open>range(0, stop, step)\<close> for a positive step, and the slice \<^verbatim>\<open>xs[i:j]\<close>.\<close>

definition py_range :: "nat \<Rightarrow> nat \<Rightarrow> nat list" where
  "py_range stop step = map (\<lambda>k. k * step) [0..<(stop + step - 1) div step]"

definition slice :: "'a list \<Rightarrow> nat \<Rightarrow> nat \<Rightarrow> 'a list" where
  "slice xs i j = take (j - i) (drop i xs)"

definition batches :: "complete_doc list \<Rightarrow> complete_doc list list" where
  "batches complete_movies =
     map (\<lambda>i. slice complete_movies i (i + batch_size))
       (py_range (length complete_movies) batch_size)"

text \<open>
  The calls of steps 9 and 10 in the order of the source: the drop, one \<^verbatim>\<open>insert_many\<close> per
  round of the loop over \<^verbatim>\<open>range(0, len(complete_movies), batch_size)\<close>, the four
  \<^verbatim>\<open>create_index\<close>.
\<close>

definition load_ops :: "complete_doc list \<Rightarrow> store_op list" where
  "load_ops complete_movies =
     Drop # map InsertMany (batches complete_movies)
       @ map CreateIndex [''title'', ''year'', ''genres'', ''rating.average'']"

text \<open>
  The method \<^verbatim>\<open>build_movies_complete\<close>, with the calls it makes on the destination
  recorded. An exception of steps 2 to 8 leaves the destination as it was, since nothing is
  called on it before step 9; an exception of a call ends the run there.
\<close>

definition build_movies_complete_traced ::
  "database \<Rightarrow> collection \<Rightarrow> error option \<times> store_op list \<times> collection" where
  "build_movies_complete_traced db dest =
     (case build_documents db of
        Inl e \<Rightarrow> (Some e, [], dest)
      | Inr complete_movies \<Rightarrow> exec_ops dest (load_ops complete_movies))"

text \<open>The same run, without the record of the calls: the exception and the destination.\<close>

definition build_movies_complete :: "database \<Rightarrow> collection \<Rightarrow> error option \<times> collection" where
  "build_movies_complete db dest =
     (case build_movies_complete_traced db dest of (e, made, c) \<Rightarrow> (e, c))"

section \<open>The documents as written\<close>

text \<open>
  The builder writes Python dicts. Their keys are those of the dict literals of the source,
  in the order of the literals: an inner dict for the rating, one per director, cast member
  and writer, and the document itself, whose identifier is under the key \<^verbatim>\<open>_id\<close>.
\<close>

datatype json = JVal val | JList "json list" | JDict "(string \<times> json) list"

definition rating_to_dict :: "rating_doc \<Rightarrow> json" where
  "rating_to_dict r = JDict [(''average'', JVal (average r)), (''votes'', JVal (votes r))]"

definition person_to_dict :: "person_ref \<Rightarrow> json" where
  "person_to_dict c = JDict [(''person_id'', JVal (person_id c)), (''name'', JVal (name c))]"

definition cast_to_dict :: "cast_entry \<Rightarrow> json" where
  "cast_to_dict e =
     JDict [(''person_id'', JVal (person_id e)), (''name'', JVal (name e)),
            (''characters'', JList (map JVal (characters e)))]"

definition doc_to_dict :: "complete_doc \<Rightarrow> json" where
  "doc_to_dict d =
     JDict [(''_id'', JVal (doc_id d)),
            (''title'', JVal (title d)),
            (''year'', JVal (year d)),
            (''runtime'', JVal (runtime d)),
            (''rating'', rating_to_dict (rating d)),
            (''genres'', JList (map JVal (genres d))),
            (''directors'', JList (map person_to_dict (directors d))),
            (''cast'', JList (map cast_to_dict (cast d))),
            (''writers'', JList (map person_to_dict (writers d)))]"

fun dict_keys :: "json \<Rightarrow> string list" where
  "dict_keys (JDict kvs) = map fst kvs"
| "dict_keys _ = []"

text \<open>The dicts of a build, in the order they are handed to \<^verbatim>\<open>insert_many\<close>.\<close>

definition written_documents :: "database \<Rightarrow> error + json list" where
  "written_documents db =
     (case build_documents db of Inl e \<Rightarrow> Inl e | Inr docs \<Rightarrow> Inr (map doc_to_dict docs))"


section \<open>Notions for stating the properties\<close>

text \<open>
  The rows a step can process without raising: those that have the fields it subscripts.
\<close>

definition has_fields :: "string list \<Rightarrow> document \<Rightarrow> bool" where
  "has_fields ks r \<longleftrightarrow> (\<forall>k\<in>set ks. r k \<noteq> None)"

definition well_formed :: "database \<Rightarrow> bool" where
  "well_formed db \<longleftrightarrow>
     (\<forall>r\<in>set (db_movies db). has_fields [''movie_id'', ''primary_title'', ''start_year''] r) \<and>
     (\<forall>r\<in>set (db_ratings db). has_fields [''movie_id'', ''average_rating'', ''num_votes''] r) \<and>
     (\<forall>r\<in>set (db_genres db). has_fields [''movie_id'', ''genre''] r) \<and>
     (\<forall>r\<in>set (db_persons db). has_fields [''person_id'', ''name''] r) \<and>
     (\<forall>r\<in>set (db_directors db). has_fields [''movie_id'', ''person_id''] r) \<and>
     (\<forall>r\<in>set (db_principals db). has_fields [''movie_id'', ''person_id''] r) \<and>
     (\<forall>r\<in>set (db_characters db). has_fields [''movie_id'', ''person_id'', ''name''] r) \<and>
     (\<forall>r\<in>set (db_writers db). has_fields [''movie_id'', ''person_id''] r)"

text \<open>
  The character names recorded for a movie and a person: those of the rows of the
  characters relation with that movie and that person, in the order of the relation,
  duplicates kept.
\<close>

definition characters_of :: "val \<Rightarrow> val \<Rightarrow> document list \<Rightarrow> val list" where
  "characters_of m p rows =
     concat (map (\<lambda>r. if r ''movie_id'' = Some m \<and> r ''person_id'' = Some p
                       then (case r ''name'' of None \<Rightarrow> [] | Some c \<Rightarrow> [c]) else []) rows)"

text \<open>The entries that the director (or writer) rows of a movie give, one per row, in order.\<close>

definition credits_of :: "(val \<rightharpoonup> val) \<Rightarrow> val \<Rightarrow> document list \<Rightarrow> person_ref list" where
  "credits_of pd m rows =
     concat (map (\<lambda>r. if r ''movie_id'' = Some m
                       then (case r ''person_id'' of None \<Rightarrow> []
                             | Some p \<Rightarrow> [\<lparr>person_id = p, name = person_name pd p\<rparr>])
                       else []) rows)"

text \<open>A movie and a person without a cast entry: a character row for them is an orphan.\<close>

definition orphan :: "(val \<rightharpoonup> cast_map) \<Rightarrow> val \<Rightarrow> val \<Rightarrow> bool" where
  "orphan cd m p \<longleftrightarrow> (case cd m of None \<Rightarrow> True | Some inner \<Rightarrow> map_of inner p = None)"

text \<open>
  Two notions for the proofs: the effect of a list of character rows on one entry of a
  movie, and the state of an inner dict after pass 1, with distinct keys and every entry
  made for its key, with the resolved name and no character yet.
\<close>

definition add_chars :: "val \<Rightarrow> document list \<Rightarrow> val \<times> cast_entry \<Rightarrow> val \<times> cast_entry" where
  "add_chars m rows = (\<lambda>(p, e). (p, e\<lparr>characters := characters e @ characters_of m p rows\<rparr>))"

definition cast_fresh :: "(val \<rightharpoonup> val) \<Rightarrow> cast_map \<Rightarrow> bool" where
  "cast_fresh pd inner \<longleftrightarrow>
     distinct (map fst inner) \<and>
     (\<forall>(p, e)\<in>set inner. person_id e = p \<and> name e = person_name pd p \<and> characters e = [])"

section \<open>Concrete inputs\<close>

text \<open>The scenario of the specification: one movie with a rating, a genre, a director and
  an actor playing two characters; and the fields its document has after the identifier.\<close>

definition scenario_db :: database where
  "scenario_db =
     \<lparr>db_movies = [[''movie_id'' \<mapsto> VStr ''m1'', ''primary_title'' \<mapsto> VStr ''Alpha'',
                    ''start_year'' \<mapsto> VNum 2000, ''runtime_minutes'' \<mapsto> VNum 100]],
      db_ratings = [[''movie_id'' \<mapsto> VStr ''m1'', ''average_rating'' \<mapsto> VNum 8.5,
                     ''num_votes'' \<mapsto> VNum 1000]],
      db_genres = [[''movie_id'' \<mapsto> VStr ''m1'', ''genre'' \<mapsto> VStr ''Drama'']],
      db_persons = [[''person_id'' \<mapsto> VStr ''p1'', ''name'' \<mapsto> VStr ''A. Actor''],
                    [''person_id'' \<mapsto> VStr ''p2'', ''name'' \<mapsto> VStr ''B. Director'']],
      db_directors = [[''movie_id'' \<mapsto> VStr ''m1'', ''person_id'' \<mapsto> VStr ''p2'']],
      db_principals = [[''movie_id'' \<mapsto> VStr ''m1'', ''person_id'' \<mapsto> VStr ''p1'']],
      db_characters = [[''movie_id'' \<mapsto> VStr ''m1'', ''person_id'' \<mapsto> VStr ''p1'',
                        ''name'' \<mapsto> VStr ''Hero''],
                       [''movie_id'' \<mapsto> VStr ''m1'', ''person_id'' \<mapsto> VStr ''p1'',
                        ''name'' \<mapsto> VStr ''Narrator'']],
      db_writers = []\<rparr>"

definition scenario_rest :: "(string \<times> json) list" where
  "scenario_rest =
     [(''title'', JVal (VStr ''Alpha'')),
      (''year'', JVal (VNum 2000)),
      (''runtime'', JVal (VNum 100)),
      (''rating'', JDict [(''average'', JVal (VNum 8.5)), (''votes'', JVal (VNum 1000))]),
      (''genres'', JList [JVal (VStr ''Drama'')]),
      (''directors'', JList [JDict [(''person_id'', JVal (VStr ''p2'')),
                                   (''name'', JVal (VStr ''B. Director''))]]),
      (''cast'', JList [JDict [(''person_id'', JVal (VStr ''p1'')),
                              (''name'', JVal (VStr ''A. Actor'')),
                              (''characters'', JList [JVal (VStr ''Hero''), JVal (VStr ''Narrator'')])]]),
      (''writers'', JList [])]"

text \<open>Movie records with and without their required fields, and small databases.\<close>

definition movie_alpha :: document where
  "movie_alpha = [''movie_id'' \<mapsto> VStr ''m1'', ''primary_title'' \<mapsto> VStr ''Alpha'',
                  ''start_year'' \<mapsto> VNum 2000]"

definition movie_without_id :: document where
  "movie_without_id = [''primary_title'' \<mapsto> VStr ''Alpha'', ''start_year'' \<mapsto> VNum 2000]"

definition movie_without_title :: document where
  "movie_without_title = [''movie_id'' \<mapsto> VStr ''m1'', ''start_year'' \<mapsto> VNum 2000]"

definition untitled_db :: database where
  "untitled_db =
     \<lparr>db_movies = [movie_without_title], db_ratings = [], db_genres = [], db_persons = [],
      db_directors = [], db_principals = [], db_characters = [], db_writers = []\<rparr>"

definition alpha_db :: database where
  "alpha_db =
     \<lparr>db_movies = [movie_alpha], db_ratings = [], db_genres = [], db_persons = [],
      db_directors = [], db_principals = [], db_characters = [], db_writers = []\<rparr>"

definition alpha_doc :: complete_doc where
  "alpha_doc =
     \<lparr>doc_id = VStr ''m1'', title = VStr ''Alpha'', year = VNum 2000, runtime = VNone,
      rating = \<lparr>average = VNone, votes = VNum 0\<rparr>, genres = [], directors = [], cast = [],
      writers = []\<rparr>"

text \<open>A destination collection left by an earlier run, and the one a run over
  \<open>alpha_db\<close> leaves.\<close>

definition old_collection :: collection where
  "old_collection =
     \<lparr>coll_docs = [\<lparr>doc_id = VStr ''m0'', title = VStr ''Old'', year = VNum 1999, runtime = VNone,
                     rating = \<lparr>average = VNone, votes = VNum 0\<rparr>, genres = [],
                     directors = [], cast = [], writers = []\<rparr>],
      coll_indexes = {''title''}\<rparr>"

definition alpha_collection :: collection where
  "alpha_collection =
     \<lparr>coll_docs = [alpha_doc],
      coll_indexes = {''title'', ''year'', ''genres'', ''rating.average''}\<rparr>"

text \<open>Two rating rows for the same movie.\<close>

definition rating_first :: document where
  "rating_first = [''movie_id'' \<mapsto> VStr ''m1'', ''average_rating'' \<mapsto> VNum 8.5,
                   ''num_votes'' \<mapsto> VNum 1000]"

definition rating_second :: document where
  "rating_second = [''movie_id'' \<mapsto> VStr ''m1'', ''average_rating'' \<mapsto> VNum 7,
                    ''num_votes'' \<mapsto> VNum 1200]"

text \<open>A cast with a person listed twice, a character name recorded twice and a character
  row of another movie; and the document of its movie.\<close>

definition cast_db :: database where
  "cast_db =
     \<lparr>db_movies = [movie_alpha], db_ratings = [], db_genres = [], db_persons = [],
      db_directors = [],
      db_principals = [[''movie_id'' \<mapsto> VStr ''m1'', ''person_id'' \<mapsto> VStr ''p1''],
                       [''movie_id'' \<mapsto> VStr ''m1'', ''person_id'' \<mapsto> VStr ''p2''],
                       [''movie_id'' \<mapsto> VStr ''m1'', ''person_id'' \<mapsto> VStr ''p1'']],
      db_characters = [[''movie_id'' \<mapsto> VStr ''m1'', ''person_id'' \<mapsto> VStr ''p1'',
                        ''name'' \<mapsto> VStr ''Hero''],
                       [''movie_id'' \<mapsto> VStr ''m1'', ''person_id'' \<mapsto> VStr ''p2'',
                        ''name'' \<mapsto> VStr ''Villain''],
                       [''movie_id'' \<mapsto> VStr ''m2'', ''person_id'' \<mapsto> VStr ''p1'',
                        ''name'' \<mapsto> VStr ''Elsewhere''],
                       [''movie_id'' \<mapsto> VStr ''m1'', ''person_id'' \<mapsto> VStr ''p1'',
                        ''name'' \<mapsto> VStr ''Hero'']],
      db_writers = []\<rparr>"

definition cast_doc :: complete_doc where
  "cast_doc =
     \<lparr>doc_id = VStr ''m1'', title = VStr ''Alpha'', year = VNum 2000, runtime = VNone,
      rating = \<lparr>average = VNone, votes = VNum 0\<rparr>, genres = [], directors = [],
      cast = [\<lparr>person_id = VStr ''p1'', name = VStr ''Unknown'',
               characters = [VStr ''Hero'', VStr ''Hero'']\<rparr>,
              \<lparr>person_id = VStr ''p2'', name = VStr ''Unknown'',
               characters = [VStr ''Villain'']\<rparr>],
      writers = []\<rparr>"

text \<open>The orphan scenario of the specification: person \<^verbatim>\<open>p9\<close> is director, principal and
  writer of movie \<^verbatim>\<open>m2\<close> and has no row in \<^verbatim>\<open>persons\<close>.\<close>

definition credit_m2_p9 :: document where
  "credit_m2_p9 = [''movie_id'' \<mapsto> VStr ''m2'', ''person_id'' \<mapsto> VStr ''p9'']"

definition orphan_db :: database where
  "orphan_db =
     \<lparr>db_movies = [[''movie_id'' \<mapsto> VStr ''m2'', ''primary_title'' \<mapsto> VStr ''Beta'',
                    ''start_year'' \<mapsto> VNum 2001]],
      db_ratings = [], db_genres = [],
      db_persons = [[''person_id'' \<mapsto> VStr ''p1'', ''name'' \<mapsto> VStr ''A. Actor'']],
      db_directors = [credit_m2_p9], db_principals = [credit_m2_p9], db_characters = [],
      db_writers = [credit_m2_p9]\<rparr>"

definition orphan_doc :: complete_doc where
  "orphan_doc =
     \<lparr>doc_id = VStr ''m2'', title = VStr ''Beta'', year = VNum 2001, runtime = VNone,
      rating = \<lparr>average = VNone, votes = VNum 0\<rparr>, genres = [],
      directors = [\<lparr>person_id = VStr ''p9'', name = VStr ''Unknown''\<rparr>],
      cast = [\<lparr>person_id = VStr ''p9'', name = VStr ''Unknown'', characters = []\<rparr>],
      writers = [\<lparr>person_id = VStr ''p9'', name = VStr ''Unknown''\<rparr>]\<rparr>"

text \<open>A cast of one actor, a character row for that actor and one for a person who is not
  in the cast.\<close>

definition actor_entry :: cast_entry where
  "actor_entry = \<lparr>person_id = VStr ''p1'', name = VStr ''A. Actor'', characters = [VStr ''Hero'']\<rparr>"

definition cast_one :: "val \<rightharpoonup> cast_map" where
  "cast_one = [VStr ''m1'' \<mapsto> [(VStr ''p1'', actor_entry)]]"

definition character_narrator :: document where
  "character_narrator = [''movie_id'' \<mapsto> VStr ''m1'', ''person_id'' \<mapsto> VStr ''p1'',
                         ''name'' \<mapsto> VStr ''Narrator'']"

definition character_ghost :: document where
  "character_ghost = [''movie_id'' \<mapsto> VStr ''m1'', ''person_id'' \<mapsto> VStr ''p7'',
                      ''name'' \<mapsto> VStr ''Ghost'']"





section \<open>Facts about the steps\<close>

lemma bnd_Inl [simp]: "bnd (Inl e) f = Inl e"
  by (simp add: bnd_def)

lemma bnd_Inr [simp]: "bnd (Inr x) f = f x"
  by (simp add: bnd_def)

lemma bnd_eq_Inr: "bnd r f = Inr y \<longleftrightarrow> (\<exists>x. r = Inr x \<and> f x = Inr y)"
  by (cases r) simp_all

lemma getitem_eq_Inr: "getitem d k = Inr v \<longleftrightarrow> d k = Some v"
  by (simp add: getitem_def split: option.splits)

lemma getitem_Some [simp]: "d k = Some v \<Longrightarrow> getitem d k = Inr v"
  by (simp add: getitem_def)

lemma getitem_None [simp]: "d k = None \<Longrightarrow> getitem d k = Inl (KeyError k)"
  by (simp add: getitem_def)

lemma for_each_append:
  "for_each f s (xs @ ys) = bnd (for_each f s xs) (\<lambda>s'. for_each f s' ys)"
  by (induction xs arbitrary: s) (simp_all split: sum.splits)

lemma for_each_returns:
  "(\<And>s x. x \<in> set xs \<Longrightarrow> \<exists>s'. f s x = Inr s') \<Longrightarrow> \<exists>s'. for_each f s xs = Inr s'"
proof (induction xs arbitrary: s)
  case Nil
  show ?case by simp
next
  case (Cons x xs)
  from Cons.prems [of x s] obtain s1 where s1: "f s x = Inr s1" by auto
  from Cons.IH [of s1] Cons.prems obtain s2 where "for_each f s1 xs = Inr s2" by auto
  with s1 show ?case by simp
qed

lemma make_doc_eq_Inr:
  "make_doc rd gd dd cd wd movie = Inr d \<longleftrightarrow>
     (\<exists>m t y. movie ''movie_id'' = Some m \<and> movie ''primary_title'' = Some t \<and>
        movie ''start_year'' = Some y \<and>
        d = \<lparr>doc_id = m, title = t, year = y,
             runtime = dict_get movie ''runtime_minutes'' VNone,
             rating = dict_get rd m \<lparr>average = VNone, votes = VNum 0\<rparr>,
             genres = dict_get gd m [],
             directors = dict_get dd m [],
             cast = (if cd m \<noteq> None then map snd (dict_get cd m []) else []),
             writers = dict_get wd m []\<rparr>)"
  by (auto simp: make_doc_def bnd_eq_Inr getitem_eq_Inr Let_def)

lemma assemble_loop:
  "for_each (\<lambda>acc movie. bnd (make_doc rd gd dd cd wd movie) (\<lambda>d. Inr (acc @ [d]))) acc movies
     = Inr docs \<longleftrightarrow>
   (\<exists>ds. docs = acc @ ds \<and> list_all2 (\<lambda>movie d. make_doc rd gd dd cd wd movie = Inr d) movies ds)"
proof (induction movies arbitrary: acc)
  case Nil
  show ?case by auto
next
  case (Cons movie movies)
  show ?case
  proof (cases "make_doc rd gd dd cd wd movie")
    case (Inl e)
    then show ?thesis by (simp add: list_all2_Cons1)
  next
    case (Inr d)
    then show ?thesis by (auto simp: Cons.IH list_all2_Cons1)
  qed
qed

lemma assemble_eq_Inr:
  "assemble rd gd dd cd wd movies = Inr docs \<longleftrightarrow>
     list_all2 (\<lambda>movie d. make_doc rd gd dd cd wd movie = Inr d) movies docs"
  unfolding assemble_def by (simp add: assemble_loop)

subsection \<open>Index steps\<close>

lemma add_rating_eq_Inr:
  "add_rating rd r = Inr rd' \<longleftrightarrow>
     (\<exists>a v m. r ''average_rating'' = Some a \<and> r ''num_votes'' = Some v \<and>
        r ''movie_id'' = Some m \<and> rd' = rd(m \<mapsto> \<lparr>average = a, votes = v\<rparr>))"
  by (auto simp: add_rating_def bnd_eq_Inr getitem_eq_Inr)

lemma add_genre_eq_Inr:
  "add_genre gd r = Inr gd' \<longleftrightarrow>
     (\<exists>m g. r ''movie_id'' = Some m \<and> r ''genre'' = Some g \<and>
        gd' = gd(m \<mapsto> dict_get gd m [] @ [g]))"
  by (auto simp: add_genre_def bnd_eq_Inr getitem_eq_Inr)

lemma add_person_eq_Inr:
  "add_person pd r = Inr pd' \<longleftrightarrow>
     (\<exists>n p. r ''name'' = Some n \<and> r ''person_id'' = Some p \<and> pd' = pd(p \<mapsto> n))"
  by (auto simp: add_person_def bnd_eq_Inr getitem_eq_Inr)

lemma add_credit_eq_Inr:
  "add_credit pd dd r = Inr dd' \<longleftrightarrow>
     (\<exists>m p. r ''movie_id'' = Some m \<and> r ''person_id'' = Some p \<and>
        dd' = dd(m \<mapsto> dict_get dd m [] @ [\<lparr>person_id = p, name = person_name pd p\<rparr>]))"
  by (auto simp: add_credit_def bnd_eq_Inr getitem_eq_Inr)

lemma add_principal_eq_Inr:
  "add_principal pd cd r = Inr cd' \<longleftrightarrow>
     (\<exists>m p. r ''movie_id'' = Some m \<and> r ''person_id'' = Some p \<and>
        cd' = cd(m \<mapsto>
          (case map_of (dict_get cd m []) p of
             None \<Rightarrow> dict_get cd m [] @ [(p, \<lparr>person_id = p, name = person_name pd p,
                                              characters = []\<rparr>)]
           | Some _ \<Rightarrow> dict_get cd m [])))"
  by (auto simp: add_principal_def bnd_eq_Inr getitem_eq_Inr Let_def)

text \<open>A loop leaves alone every key that none of its rows names.\<close>

lemma for_each_frame:
  assumes step: "\<And>s x s'. x \<in> set xs \<Longrightarrow> f s x = Inr s' \<Longrightarrow> \<exists>k v. key x = Some k \<and> s' = s(k \<mapsto> v)"
    and run: "for_each f s xs = Inr s'"
    and none: "\<forall>x\<in>set xs. key x \<noteq> Some m"
  shows "s' m = s m"
  using assms
proof (induction xs arbitrary: s)
  case Nil
  then show ?case by simp
next
  case (Cons x xs)
  from Cons.prems(2) obtain s1 where s1: "f s x = Inr s1" and rest: "for_each f s1 xs = Inr s'"
    by (auto split: sum.splits)
  from Cons.prems(1) [of x s s1] s1 obtain k v where k: "key x = Some k" "s1 = s(k \<mapsto> v)"
    by fastforce
  with Cons.prems(3) have "s1 m = s m" by auto
  moreover have "s' m = s1 m"
    using Cons.IH [of s1] Cons.prems(1) rest Cons.prems(3) by auto
  ultimately show ?case by simp
qed

lemma ratings_frame:
  "for_each add_rating rd rows = Inr rd' \<Longrightarrow> \<forall>r\<in>set rows. r ''movie_id'' \<noteq> Some m \<Longrightarrow>
   rd' m = rd m"
  by (rule for_each_frame [where f = add_rating and key = "\<lambda>r. r ''movie_id''"])
     (auto simp: add_rating_eq_Inr)

lemma genres_frame:
  "for_each add_genre gd rows = Inr gd' \<Longrightarrow> \<forall>r\<in>set rows. r ''movie_id'' \<noteq> Some m \<Longrightarrow>
   gd' m = gd m"
  by (rule for_each_frame [where f = add_genre and key = "\<lambda>r. r ''movie_id''"])
     (auto simp: add_genre_eq_Inr)

lemma persons_frame:
  "for_each add_person pd rows = Inr pd' \<Longrightarrow> \<forall>r\<in>set rows. r ''person_id'' \<noteq> Some p \<Longrightarrow>
   pd' p = pd p"
  by (rule for_each_frame [where f = add_person and key = "\<lambda>r. r ''person_id''"])
     (auto simp: add_person_eq_Inr)

subsection \<open>Assembly\<close>

lemma make_doc_returns:
  "(\<exists>d. make_doc rd gd dd cd wd movie = Inr d) \<longleftrightarrow>
     movie ''movie_id'' \<noteq> None \<and> movie ''primary_title'' \<noteq> None \<and> movie ''start_year'' \<noteq> None"
  by (cases "movie ''movie_id''"; cases "movie ''primary_title''"; cases "movie ''start_year''")
    (simp_all add: make_doc_def Let_def)

lemma assemble_returns:
  "(\<exists>docs. assemble rd gd dd cd wd movies = Inr docs) \<longleftrightarrow>
     (\<forall>movie\<in>set movies. movie ''movie_id'' \<noteq> None \<and> movie ''primary_title'' \<noteq> None \<and>
        movie ''start_year'' \<noteq> None)"
proof (induction movies)
  case Nil
  show ?case by (simp add: assemble_eq_Inr)
next
  case (Cons movie movies)
  have "(\<exists>docs. assemble rd gd dd cd wd (movie # movies) = Inr docs) \<longleftrightarrow>
        (\<exists>d. make_doc rd gd dd cd wd movie = Inr d) \<and>
        (\<exists>docs. assemble rd gd dd cd wd movies = Inr docs)"
    by (auto simp: assemble_eq_Inr list_all2_Cons1)
  then show ?case
    by (simp add: Cons.IH make_doc_returns)
qed

subsection \<open>Ratings\<close>

lemma ratings_returns:
  "(\<forall>r\<in>set rows. r ''average_rating'' \<noteq> None \<and> r ''num_votes'' \<noteq> None \<and> r ''movie_id'' \<noteq> None)
   \<Longrightarrow> \<exists>rd'. for_each add_rating rd rows = Inr rd'"
  by (rule for_each_returns) (auto simp: add_rating_eq_Inr)

lemma ratings_last:
  assumes run: "for_each add_rating rd (before @ r # after) = Inr rd'"
    and r: "r ''movie_id'' = Some m" "r ''average_rating'' = Some a" "r ''num_votes'' = Some v"
    and after: "\<forall>r'\<in>set after. r' ''movie_id'' \<noteq> Some m"
  shows "rd' m = Some \<lparr>average = a, votes = v\<rparr>"
proof -
  from run obtain rd1 where rd1: "for_each add_rating rd before = Inr rd1"
    and rest: "for_each add_rating rd1 (r # after) = Inr rd'"
    by (auto simp: for_each_append bnd_eq_Inr)
  from r have step: "add_rating rd1 r = Inr (rd1(m \<mapsto> \<lparr>average = a, votes = v\<rparr>))"
    by (simp add: add_rating_eq_Inr)
  with rest have "for_each add_rating (rd1(m \<mapsto> \<lparr>average = a, votes = v\<rparr>)) after = Inr rd'"
    by simp
  from ratings_frame [OF this after] show ?thesis by simp
qed

subsection \<open>Inner dict\<close>

lemma map_fst_update_entry [simp]: "map fst (update_entry k f kvs) = map fst kvs"
  by (induction kvs) auto

lemma map_of_update_entry:
  "map_of (update_entry k f kvs) q = (if q = k then map_option f (map_of kvs k) else map_of kvs q)"
  by (induction kvs) auto

lemma add_character_no_movie:
  "r ''movie_id'' = Some m \<Longrightarrow> cd m = None \<Longrightarrow> add_character cd r = Inr cd"
  by (simp add: add_character_def)

lemma add_character_no_person:
  "r ''movie_id'' = Some m \<Longrightarrow> cd m = Some inner \<Longrightarrow> r ''person_id'' = Some p \<Longrightarrow>
   map_of inner p = None \<Longrightarrow> add_character cd r = Inr cd"
  by (simp add: add_character_def)

lemma add_character_hit:
  "r ''movie_id'' = Some m \<Longrightarrow> cd m = Some inner \<Longrightarrow> r ''person_id'' = Some p \<Longrightarrow>
   map_of inner p = Some e \<Longrightarrow> r ''name'' = Some c \<Longrightarrow>
   add_character cd r =
     Inr (cd(m \<mapsto> update_entry p (\<lambda>e. e\<lparr>characters := characters e @ [c]\<rparr>) inner))"
  by (simp add: add_character_def)

lemma add_character_InrE:
  assumes "add_character cd r = Inr cd'"
  obtains (skip_movie) m where "r ''movie_id'' = Some m" "cd m = None" "cd' = cd"
  | (skip_person) m inner p where "r ''movie_id'' = Some m" "cd m = Some inner"
      "r ''person_id'' = Some p" "map_of inner p = None" "cd' = cd"
  | (hit) m inner p e c where "r ''movie_id'' = Some m" "cd m = Some inner"
      "r ''person_id'' = Some p" "map_of inner p = Some e" "r ''name'' = Some c"
      "cd' = cd(m \<mapsto> update_entry p (\<lambda>e. e\<lparr>characters := characters e @ [c]\<rparr>) inner)"
proof -
  from assms obtain m where m: "r ''movie_id'' = Some m"
    by (cases "r ''movie_id''") (simp_all add: add_character_def)
  show thesis
  proof (cases "cd m")
    case None
    with m assms have "cd' = cd" by (simp add: add_character_def)
    with m None show thesis by (rule skip_movie)
  next
    case inner: (Some inner)
    from assms m inner obtain p where p: "r ''person_id'' = Some p"
      by (cases "r ''person_id''") (simp_all add: add_character_def)
    show thesis
    proof (cases "map_of inner p")
      case None
      with m inner p assms have "cd' = cd" by (simp add: add_character_def)
      with m inner p None show thesis by (rule skip_person)
    next
      case e: (Some e)
      from assms m inner p e obtain c where c: "r ''name'' = Some c"
        by (cases "r ''name''") (simp_all add: add_character_def)
      from m inner p e c assms
      have "cd' = cd(m \<mapsto> update_entry p (\<lambda>e. e\<lparr>characters := characters e @ [c]\<rparr>) inner)"
        by (simp add: add_character_def)
      with m inner p e c show thesis by (rule hit)
    qed
  qed
qed

text \<open>Pass 2 never changes which movies and which persons the cast has.\<close>

lemma add_character_keys:
  "add_character cd r = Inr cd' \<Longrightarrow> map_option (map fst) (cd' m) = map_option (map fst) (cd m)"
  by (erule add_character_InrE) auto

lemma characters_keys:
  "for_each add_character cd rows = Inr cd' \<Longrightarrow>
   map_option (map fst) (cd' m) = map_option (map fst) (cd m)"
proof (induction rows arbitrary: cd)
  case Nil
  then show ?case by simp
next
  case (Cons r rows)
  from Cons.prems obtain cd1 where step: "add_character cd r = Inr cd1"
    and rest: "for_each add_character cd1 rows = Inr cd'"
    by (auto split: sum.splits)
  from Cons.IH [OF rest] add_character_keys [OF step] show ?case by simp
qed

lemma orphan_keys:
  "map_option (map fst) (cd' m) = map_option (map fst) (cd m) \<Longrightarrow> orphan cd' m p = orphan cd m p"
  by (cases "cd m"; cases "cd' m") (auto simp: orphan_def map_of_eq_None_iff image_iff
      simp flip: set_map)

lemma add_character_orphan:
  "r ''movie_id'' = Some m \<Longrightarrow> r ''person_id'' = Some p \<Longrightarrow> orphan cd m p \<Longrightarrow>
   add_character cd r = Inr cd"
  by (cases "cd m") (simp_all add: orphan_def add_character_no_movie add_character_no_person)

lemma characters_drop_orphan:
  assumes r: "r ''movie_id'' = Some m" "r ''person_id'' = Some p" and orph: "orphan cd m p"
  shows "for_each add_character cd (before @ r # after)
           = for_each add_character cd (before @ after)"
proof (cases "for_each add_character cd before")
  case (Inl e)
  then show ?thesis by (simp add: for_each_append)
next
  case (Inr cd1)
  have "orphan cd1 m p"
    using orphan_keys [of cd1 m cd p] characters_keys [OF Inr, of m] orph by simp
  with r have "add_character cd1 r = Inr cd1"
    by (simp add: add_character_orphan)
  with Inr show ?thesis
    by (simp add: for_each_append)
qed

subsection \<open>Batches\<close>

lemma slice_batch: "slice xs i (i + n) = take n (drop i xs)"
  by (simp add: slice_def)

lemma concat_chunks:
  "concat (map (\<lambda>k. take n (drop (k * n) xs)) [0..<j]) = take (j * n) xs"
proof (induction j)
  case 0
  show ?case by simp
next
  case (Suc j)
  have "take (j * n + n) xs = take (j * n) xs @ take n (drop (j * n) xs)"
    by (simp add: take_add)
  with Suc show ?case by (simp add: add.commute)
qed

lemma batches_eq:
  "batches docs = map (\<lambda>k. take batch_size (drop (k * batch_size) docs))
     [0..<(length docs + batch_size - 1) div batch_size]"
  by (simp add: batches_def py_range_def slice_batch comp_def)

lemma batch_count_covers: "length docs \<le> ((length docs + batch_size - 1) div batch_size) * batch_size"
  by (simp add: batch_size_def)

lemma concat_batches: "concat (batches docs) = docs"
  using batch_count_covers [of docs] by (simp add: batches_eq concat_chunks)

lemma batch_start: "k < (n + batch_size - 1) div batch_size \<Longrightarrow> k * batch_size < n"
  by (simp add: batch_size_def)

lemma length_batches: "length (batches docs) = (length docs + batch_size - 1) div batch_size"
  by (simp add: batches_eq)

lemma nth_batches:
  "k < length (batches docs) \<Longrightarrow> batches docs ! k = take batch_size (drop (k * batch_size) docs)"
  by (simp add: batches_eq)

lemma batch_nonempty:
  assumes "k < length (batches docs)"
  shows "batches docs ! k \<noteq> [] \<and> length (batches docs ! k) \<le> batch_size"
proof -
  from assms have "k * batch_size < length docs"
    by (simp add: length_batches batch_start)
  with assms show ?thesis
    by (simp add: nth_batches batch_size_def)
qed


subsection \<open>Pass 1 of the cast\<close>

lemma cast_fresh_Nil [simp]: "cast_fresh pd []"
  by (simp add: cast_fresh_def)

lemma map_of_None_keys: "map_of kvs k = None \<longleftrightarrow> k \<notin> fst ` set kvs"
  by (simp add: map_of_eq_None_iff)

lemma add_principal_fresh:
  assumes step: "add_principal pd cd r = Inr cd'"
    and inv: "\<And>inner. cd m = Some inner \<Longrightarrow> cast_fresh pd inner"
    and m: "cd' m = Some inner'"
  shows "cast_fresh pd inner'"
proof -
  from step obtain m0 p0 where r: "r ''movie_id'' = Some m0" "r ''person_id'' = Some p0"
    and cd': "cd' = cd(m0 \<mapsto>
          (case map_of (dict_get cd m0 []) p0 of
             None \<Rightarrow> dict_get cd m0 [] @ [(p0, \<lparr>person_id = p0, name = person_name pd p0,
                                              characters = []\<rparr>)]
           | Some _ \<Rightarrow> dict_get cd m0 []))"
    by (auto simp: add_principal_eq_Inr)
  show ?thesis
  proof (cases "m = m0")
    case False
    with cd' m inv show ?thesis by simp
  next
    case True
    have old: "cast_fresh pd (dict_get cd m0 [])"
      using inv True by (cases "cd m0") (simp_all add: dict_get_def)
    show ?thesis
    proof (cases "map_of (dict_get cd m0 []) p0")
      case None
      with cd' m True have "inner' = dict_get cd m0 [] @ [(p0, \<lparr>person_id = p0,
          name = person_name pd p0, characters = []\<rparr>)]"
        by simp
      with old None show ?thesis
        by (auto simp: cast_fresh_def map_of_None_keys)
    next
      case (Some e)
      with cd' m True have "inner' = dict_get cd m0 []" by simp
      with old show ?thesis by simp
    qed
  qed
qed

lemma principals_fresh:
  "for_each (add_principal pd) cd rows = Inr cd' \<Longrightarrow>
   (\<And>inner. cd m = Some inner \<Longrightarrow> cast_fresh pd inner) \<Longrightarrow>
   cd' m = Some inner' \<Longrightarrow> cast_fresh pd inner'"
proof (induction rows arbitrary: cd)
  case Nil
  then show ?case by simp
next
  case (Cons r rows)
  from Cons.prems(1) obtain cd1 where step: "add_principal pd cd r = Inr cd1"
    and rest: "for_each (add_principal pd) cd1 rows = Inr cd'"
    by (auto split: sum.splits)
  have "\<And>inner. cd1 m = Some inner \<Longrightarrow> cast_fresh pd inner"
    using add_principal_fresh [of pd cd r cd1 m] step Cons.prems(2) by blast
  from Cons.IH [OF rest this Cons.prems(3)] show ?case .
qed

lemma add_principal_keys:
  assumes step: "add_principal pd cd r = Inr cd'"
  shows "fst ` set (dict_get cd' m []) =
         fst ` set (dict_get cd m []) \<union> {p. r ''movie_id'' = Some m \<and> r ''person_id'' = Some p}"
proof -
  from step obtain m0 p0 where r: "r ''movie_id'' = Some m0" "r ''person_id'' = Some p0"
    and cd': "cd' = cd(m0 \<mapsto>
          (case map_of (dict_get cd m0 []) p0 of
             None \<Rightarrow> dict_get cd m0 [] @ [(p0, \<lparr>person_id = p0, name = person_name pd p0,
                                              characters = []\<rparr>)]
           | Some _ \<Rightarrow> dict_get cd m0 []))"
    by (auto simp: add_principal_eq_Inr)
  show ?thesis
  proof (cases "m = m0")
    case False
    with r cd' show ?thesis by (auto simp: dict_get_def)
  next
    case True
    show ?thesis
    proof (cases "map_of (dict_get cd m0 []) p0")
      case None
      with r cd' True show ?thesis by (auto simp: dict_get_def)
    next
      case (Some e)
      then have "p0 \<in> fst ` set (dict_get cd m0 [])"
        by (metis map_of_None_keys option.distinct(1))
      with r cd' True Some show ?thesis by (auto simp: dict_get_def)
    qed
  qed
qed

lemma principals_keys:
  "for_each (add_principal pd) cd rows = Inr cd' \<Longrightarrow>
   fst ` set (dict_get cd' m []) =
     fst ` set (dict_get cd m []) \<union>
       {p. \<exists>r\<in>set rows. r ''movie_id'' = Some m \<and> r ''person_id'' = Some p}"
proof (induction rows arbitrary: cd)
  case Nil
  then show ?case by simp
next
  case (Cons r rows)
  from Cons.prems obtain cd1 where step: "add_principal pd cd r = Inr cd1"
    and rest: "for_each (add_principal pd) cd1 rows = Inr cd'"
    by (auto split: sum.splits)
  from Cons.IH [OF rest] add_principal_keys [OF step, of m] show ?case by auto
qed

lemma principals_orphan:
  assumes cd0: "for_each (add_principal pd) Map.empty rows = Inr cd0"
    and none: "\<forall>q\<in>set rows. q ''movie_id'' \<noteq> Some m \<or> q ''person_id'' \<noteq> Some p"
  shows "orphan cd0 m p"
proof -
  from principals_keys [OF cd0, of m] none have "p \<notin> fst ` set (dict_get cd0 m [])"
    by (auto simp: dict_get_def)
  then show ?thesis
    by (cases "cd0 m") (simp_all add: orphan_def dict_get_def map_of_None_keys)
qed

subsection \<open>Pass 2 of the cast\<close>

lemma characters_of_Nil [simp]: "characters_of m p [] = []"
  by (simp add: characters_of_def)

lemma characters_of_Cons:
  "characters_of m p (r # rows) = characters_of m p [r] @ characters_of m p rows"
  by (simp add: characters_of_def)

lemma characters_of_other:
  "r ''movie_id'' \<noteq> Some m \<or> r ''person_id'' \<noteq> Some p \<Longrightarrow> characters_of m p [r] = []"
  by (auto simp: characters_of_def)

lemma characters_of_hit:
  "r ''movie_id'' = Some m \<Longrightarrow> r ''person_id'' = Some p \<Longrightarrow> r ''name'' = Some c \<Longrightarrow>
   characters_of m p [r] = [c]"
  by (simp add: characters_of_def)

lemma add_chars_Nil [simp]: "add_chars m [] x = x"
  by (cases x) (simp add: add_chars_def)

lemma add_chars_Cons: "add_chars m (r # rows) x = add_chars m rows (add_chars m [r] x)"
  by (cases x) (simp add: add_chars_def characters_of_Cons [of m _ r rows])

lemma fst_add_chars [simp]: "fst (add_chars m rows x) = fst x"
  by (cases x) (simp add: add_chars_def)

lemma update_entry_distinct:
  "distinct (map fst kvs) \<Longrightarrow>
   update_entry k f kvs = map (\<lambda>(q, v). (q, if q = k then f v else v)) kvs"
proof (induction kvs)
  case Nil
  show ?case by simp
next
  case (Cons kv kvs)
  obtain k' v where kv: "kv = (k', v)" by (cases kv)
  show ?case
  proof (cases "k' = k")
    case True
    with Cons.prems kv have "k \<notin> fst ` set kvs" by simp
    then have "map (\<lambda>(q, v). (q, if q = k then f v else v)) kvs = kvs"
      by (intro map_idI) (auto simp: image_iff)
    with True kv show ?thesis by simp
  next
    case False
    with Cons kv show ?thesis by simp
  qed
qed

lemma add_character_closed:
  assumes step: "add_character cd r = Inr cd'"
    and dist: "\<And>inner. cd m = Some inner \<Longrightarrow> distinct (map fst inner)"
  shows "cd' m = map_option (map (add_chars m [r])) (cd m)"
proof -
  have same: "map (add_chars m [r]) inner = inner"
    if "\<And>p e. (p, e) \<in> set inner \<Longrightarrow> r ''movie_id'' \<noteq> Some m \<or> r ''person_id'' \<noteq> Some p"
    for inner
  proof (rule map_idI)
    fix x assume xin: "x \<in> set inner"
    obtain p e where x: "x = (p, e)" by (cases x)
    with xin have "(p, e) \<in> set inner" by simp
    from that [OF this] have "characters_of m p [r] = []" by (rule characters_of_other)
    with x show "add_chars m [r] x = x" by (simp add: add_chars_def)
  qed
  from step show ?thesis
  proof (cases rule: add_character_InrE)
    case (skip_movie m0)
    show ?thesis
    proof (cases "cd m")
      case None
      with skip_movie show ?thesis by simp
    next
      case (Some inner)
      with skip_movie have "m \<noteq> m0" by auto
      with skip_movie have "map (add_chars m [r]) inner = inner" by (intro same) simp
      with skip_movie Some show ?thesis by simp
    qed
  next
    case (skip_person m0 inner0 p0)
    show ?thesis
    proof (cases "cd m")
      case None
      with skip_person show ?thesis by simp
    next
      case (Some inner)
      have "map (add_chars m [r]) inner = inner"
      proof (rule same)
        fix p e assume pe: "(p, e) \<in> set inner"
        show "r ''movie_id'' \<noteq> Some m \<or> r ''person_id'' \<noteq> Some p"
        proof (cases "m = m0")
          case False
          with skip_person show ?thesis by simp
        next
          case True
          with Some skip_person have "inner = inner0" by simp
          with pe skip_person have "p \<noteq> p0"
            by (auto simp: map_of_None_keys image_iff)
          with skip_person show ?thesis by simp
        qed
      qed
      with skip_person Some show ?thesis by simp
    qed
  next
    case (hit m0 inner0 p0 e0 c)
    show ?thesis
    proof (cases "m = m0")
      case False
      show ?thesis
      proof (cases "cd m")
        case None
        with hit False show ?thesis by simp
      next
        case (Some inner)
        from hit False have "map (add_chars m [r]) inner = inner" by (intro same) simp
        with hit False Some show ?thesis by simp
      qed
    next
      case True
      from dist True hit have d0: "distinct (map fst inner0)" by simp
      have "map (\<lambda>(q, v). (q, if q = p0 then v\<lparr>characters := characters v @ [c]\<rparr> else v)) inner0
            = map (add_chars m0 [r]) inner0"
      proof (rule map_cong [OF refl])
        fix x assume "x \<in> set inner0"
        obtain q v where x: "x = (q, v)" by (cases x)
        show "(case x of (q, v) \<Rightarrow> (q, if q = p0 then v\<lparr>characters := characters v @ [c]\<rparr> else v))
              = add_chars m0 [r] x"
        proof (cases "q = p0")
          case True
          with hit have "characters_of m0 q [r] = [c]" by (simp add: characters_of_hit)
          with x True show ?thesis by (simp add: add_chars_def)
        next
          case False
          with hit have "characters_of m0 q [r] = []" by (simp add: characters_of_other)
          with x False show ?thesis by (simp add: add_chars_def)
        qed
      qed
      with hit True d0 show ?thesis
        by (simp add: update_entry_distinct)
    qed
  qed
qed

lemma characters_closed:
  "for_each add_character cd rows = Inr cd' \<Longrightarrow>
   (\<And>inner. cd m = Some inner \<Longrightarrow> distinct (map fst inner)) \<Longrightarrow>
   cd' m = map_option (map (add_chars m rows)) (cd m)"
proof (induction rows arbitrary: cd)
  case Nil
  then show ?case by (simp add: option.map_ident cong: map_cong)
next
  case (Cons r rows)
  from Cons.prems(1) obtain cd1 where step: "add_character cd r = Inr cd1"
    and rest: "for_each add_character cd1 rows = Inr cd'"
    by (auto split: sum.splits)
  have cd1: "cd1 m = map_option (map (add_chars m [r])) (cd m)"
    using add_character_closed [of cd r cd1 m] step Cons.prems(2) by blast
  have "\<And>inner. cd1 m = Some inner \<Longrightarrow> distinct (map fst inner)"
    using cd1 Cons.prems(2) by (cases "cd m") (auto simp: comp_def)
  from Cons.IH [OF rest this] have "cd' m = map_option (map (add_chars m rows)) (cd1 m)" .
  with cd1 show ?case
    by (cases "cd m") (simp_all add: comp_def add_chars_Cons [of m r rows])
qed

text \<open>In a run of pass 2 that returns, every row that matches a cast entry has a name.\<close>

lemma characters_named:
  "for_each add_character cd rows = Inr cd' \<Longrightarrow> r \<in> set rows \<Longrightarrow>
   r ''movie_id'' = Some m \<Longrightarrow> r ''person_id'' = Some p \<Longrightarrow> \<not> orphan cd m p \<Longrightarrow>
   r ''name'' \<noteq> None"
proof (induction rows arbitrary: cd)
  case Nil
  then show ?case by simp
next
  case (Cons x rows)
  from Cons.prems(1) obtain cd1 where step: "add_character cd x = Inr cd1"
    and rest: "for_each add_character cd1 rows = Inr cd'"
    by (auto split: sum.splits)
  show ?case
  proof (cases "r = x")
    case True
    from step Cons.prems(3,4,5) True show ?thesis
      by (cases rule: add_character_InrE) (auto simp: orphan_def)
  next
    case False
    with Cons.prems(2) have "r \<in> set rows" by simp
    moreover have "\<not> orphan cd1 m p"
      using orphan_keys [of cd1 m cd p] add_character_keys [OF step, of m] Cons.prems(5) by simp
    ultimately show ?thesis
      using Cons.IH [OF rest] Cons.prems(3,4) by blast
  qed
qed

subsection \<open>Directors and writers\<close>

lemma credits_of_Nil [simp]: "credits_of pd m [] = []"
  by (simp add: credits_of_def)

lemma credits_of_Cons:
  "credits_of pd m (r # rows) = credits_of pd m [r] @ credits_of pd m rows"
  by (simp add: credits_of_def)

lemma add_credit_closed:
  "add_credit pd dd r = Inr dd' \<Longrightarrow> dict_get dd' m [] = dict_get dd m [] @ credits_of pd m [r]"
  by (auto simp: add_credit_eq_Inr dict_get_def credits_of_def)

lemma credits_closed:
  "for_each (add_credit pd) dd rows = Inr dd' \<Longrightarrow>
   dict_get dd' m [] = dict_get dd m [] @ credits_of pd m rows"
proof (induction rows arbitrary: dd)
  case Nil
  then show ?case by simp
next
  case (Cons r rows)
  from Cons.prems obtain dd1 where step: "add_credit pd dd r = Inr dd1"
    and rest: "for_each (add_credit pd) dd1 rows = Inr dd'"
    by (auto split: sum.splits)
  from Cons.IH [OF rest] add_credit_closed [OF step, of m] show ?case
    by (simp add: credits_of_Cons [of pd m r rows])
qed

lemma credits_count:
  "for_each (add_credit pd) dd rows = Inr dd' \<Longrightarrow>
   length (credits_of pd m rows) = length (filter (\<lambda>r. r ''movie_id'' = Some m) rows)"
proof (induction rows arbitrary: dd)
  case Nil
  then show ?case by simp
next
  case (Cons r rows)
  from Cons.prems obtain dd1 where step: "add_credit pd dd r = Inr dd1"
    and rest: "for_each (add_credit pd) dd1 rows = Inr dd'"
    by (auto split: sum.splits)
  from step have "length (credits_of pd m [r]) = (if r ''movie_id'' = Some m then 1 else 0)"
    by (auto simp: add_credit_eq_Inr credits_of_def)
  with Cons.IH [OF rest] show ?case
    by (simp add: credits_of_Cons [of pd m r rows])
qed

lemma credits_member:
  "r \<in> set rows \<Longrightarrow> r ''movie_id'' = Some m \<Longrightarrow> r ''person_id'' = Some p \<Longrightarrow>
   \<lparr>person_id = p, name = person_name pd p\<rparr> \<in> set (credits_of pd m rows)"
proof (induction rows)
  case Nil
  then show ?case by simp
next
  case (Cons x rows)
  show ?case
  proof (cases "r = x")
    case True
    with Cons.prems show ?thesis
      by (simp add: credits_of_Cons [of pd m x rows]) (simp add: credits_of_def)
  next
    case False
    with Cons show ?thesis
      by (simp add: credits_of_Cons [of pd m x rows])
  qed
qed

subsection \<open>The build as a whole\<close>

lemma build_documentsE:
  assumes "build_documents db = Inr docs"
  obtains rd gd pd dd cd0 cd wd where
    "for_each add_rating Map.empty (db_ratings db) = Inr rd"
    "for_each add_genre Map.empty (db_genres db) = Inr gd"
    "for_each add_person Map.empty (db_persons db) = Inr pd"
    "for_each (add_credit pd) Map.empty (db_directors db) = Inr dd"
    "for_each (add_principal pd) Map.empty (db_principals db) = Inr cd0"
    "for_each add_character cd0 (db_characters db) = Inr cd"
    "for_each (add_credit pd) Map.empty (db_writers db) = Inr wd"
    "assemble rd gd dd cd wd (db_movies db) = Inr docs"
  using assms unfolding build_documents_def bnd_eq_Inr by blast

lemma list_all2_member:
  "list_all2 P xs ys \<Longrightarrow> y \<in> set ys \<Longrightarrow> \<exists>x\<in>set xs. P x y"
  by (induction rule: list_all2_induct) auto

lemma assemble_member:
  "assemble rd gd dd cd wd movies = Inr docs \<Longrightarrow> d \<in> set docs \<Longrightarrow>
   \<exists>movie\<in>set movies. make_doc rd gd dd cd wd movie = Inr d"
  using list_all2_member [of "\<lambda>movie d. make_doc rd gd dd cd wd movie = Inr d" movies docs d]
  by (simp add: assemble_eq_Inr)

lemma bnd_cong: "(\<And>x. r = Inr x \<Longrightarrow> f x = g x) \<Longrightarrow> bnd r f = bnd r g"
  by (cases r) simp_all

subsection \<open>The build returns on well-formed rows\<close>

lemma add_character_returns:
  "has_fields [''movie_id'', ''person_id'', ''name''] r \<Longrightarrow> \<exists>cd'. add_character cd r = Inr cd'"
  by (auto simp: has_fields_def add_character_def split: option.splits)

lemma build_returns:
  assumes "well_formed db"
  shows "\<exists>docs. build_documents db = Inr docs"
proof -
  from assms obtain rd where rd: "for_each add_rating Map.empty (db_ratings db) = Inr rd"
    using ratings_returns [of "db_ratings db" Map.empty]
    by (auto simp: well_formed_def has_fields_def)
  have "\<exists>gd. for_each add_genre Map.empty (db_genres db) = Inr gd"
    using assms by (intro for_each_returns) (auto simp: well_formed_def has_fields_def add_genre_eq_Inr)
  then obtain gd where gd: "for_each add_genre Map.empty (db_genres db) = Inr gd" ..
  have "\<exists>pd. for_each add_person Map.empty (db_persons db) = Inr pd"
    using assms by (intro for_each_returns) (auto simp: well_formed_def has_fields_def add_person_eq_Inr)
  then obtain pd where pd: "for_each add_person Map.empty (db_persons db) = Inr pd" ..
  have "\<exists>dd. for_each (add_credit pd) Map.empty (db_directors db) = Inr dd"
    using assms by (intro for_each_returns) (auto simp: well_formed_def has_fields_def add_credit_eq_Inr)
  then obtain dd where dd: "for_each (add_credit pd) Map.empty (db_directors db) = Inr dd" ..
  have "\<exists>cd0. for_each (add_principal pd) Map.empty (db_principals db) = Inr cd0"
    using assms
    by (intro for_each_returns) (auto simp: well_formed_def has_fields_def add_principal_eq_Inr)
  then obtain cd0 where cd0: "for_each (add_principal pd) Map.empty (db_principals db) = Inr cd0" ..
  have "\<exists>cd. for_each add_character cd0 (db_characters db) = Inr cd"
    using assms
    by (intro for_each_returns add_character_returns) (simp add: well_formed_def)
  then obtain cd where cd: "for_each add_character cd0 (db_characters db) = Inr cd" ..
  have "\<exists>wd. for_each (add_credit pd) Map.empty (db_writers db) = Inr wd"
    using assms by (intro for_each_returns) (auto simp: well_formed_def has_fields_def add_credit_eq_Inr)
  then obtain wd where wd: "for_each (add_credit pd) Map.empty (db_writers db) = Inr wd" ..
  have "\<exists>docs. assemble rd gd dd cd wd (db_movies db) = Inr docs"
    using assms by (simp add: assemble_returns well_formed_def has_fields_def)
  then obtain docs where "assemble rd gd dd cd wd (db_movies db) = Inr docs" ..
  with rd gd pd dd cd0 cd wd have "build_documents db = Inr docs"
    by (simp add: build_documents_def)
  then show ?thesis ..
qed

subsection \<open>The fields of an assembled document\<close>

lemma add_chars_fresh:
  assumes "cast_fresh pd inner" and "x \<in> set inner"
  shows "snd (add_chars m rows x) =
         \<lparr>person_id = fst x, name = person_name pd (fst x),
          characters = characters_of m (fst x) rows\<rparr>"
proof -
  obtain p e where x: "x = (p, e)" by (cases x)
  with assms have "person_id e = p" "name e = person_name pd p" "characters e = []"
    by (auto simp: cast_fresh_def)
  with x show ?thesis
    by (cases e) (simp add: add_chars_def)
qed

lemma document_parts:
  assumes run: "build_documents db = Inr docs" and d: "d \<in> set docs"
  obtains pd ps where
    "for_each add_person Map.empty (db_persons db) = Inr pd"
    "\<forall>r\<in>set (db_ratings db). r ''movie_id'' \<noteq> Some (doc_id d) \<Longrightarrow>
       rating d = \<lparr>average = VNone, votes = VNum 0\<rparr>"
    "\<forall>r\<in>set (db_genres db). r ''movie_id'' \<noteq> Some (doc_id d) \<Longrightarrow> genres d = []"
    "directors d = credits_of pd (doc_id d) (db_directors db)"
    "length (directors d) = length (filter (\<lambda>r. r ''movie_id'' = Some (doc_id d)) (db_directors db))"
    "writers d = credits_of pd (doc_id d) (db_writers db)"
    "length (writers d) = length (filter (\<lambda>r. r ''movie_id'' = Some (doc_id d)) (db_writers db))"
    "distinct ps"
    "set ps = {p. \<exists>r\<in>set (db_principals db). r ''movie_id'' = Some (doc_id d) \<and>
                  r ''person_id'' = Some p}"
    "cast d = map (\<lambda>p. \<lparr>person_id = p, name = person_name pd p,
                         characters = characters_of (doc_id d) p (db_characters db)\<rparr>) ps"
    "\<And>r p. r \<in> set (db_characters db) \<Longrightarrow> r ''movie_id'' = Some (doc_id d) \<Longrightarrow>
       r ''person_id'' = Some p \<Longrightarrow> p \<in> set ps \<Longrightarrow> r ''name'' \<noteq> None"
proof -
  from run obtain rd gd pd dd cd0 cd wd where
    rd: "for_each add_rating Map.empty (db_ratings db) = Inr rd" and
    gd: "for_each add_genre Map.empty (db_genres db) = Inr gd" and
    pd: "for_each add_person Map.empty (db_persons db) = Inr pd" and
    dd: "for_each (add_credit pd) Map.empty (db_directors db) = Inr dd" and
    cd0: "for_each (add_principal pd) Map.empty (db_principals db) = Inr cd0" and
    cd: "for_each add_character cd0 (db_characters db) = Inr cd" and
    wd: "for_each (add_credit pd) Map.empty (db_writers db) = Inr wd" and
    asm: "assemble rd gd dd cd wd (db_movies db) = Inr docs"
    by (rule build_documentsE)
  from assemble_member [OF asm d] obtain movie where "make_doc rd gd dd cd wd movie = Inr d"
    by blast
  then have
    f_rating: "rating d = dict_get rd (doc_id d) \<lparr>average = VNone, votes = VNum 0\<rparr>" and
    f_genres: "genres d = dict_get gd (doc_id d) []" and
    f_directors: "directors d = dict_get dd (doc_id d) []" and
    f_writers: "writers d = dict_get wd (doc_id d) []" and
    f_cast: "cast d = (if cd (doc_id d) \<noteq> None then map snd (dict_get cd (doc_id d) []) else [])"
    by (auto simp: make_doc_eq_Inr)
  define m where "m = doc_id d"
  define inner0 where "inner0 = dict_get cd0 m []"
  have fresh: "cast_fresh pd inner0"
  proof (cases "cd0 m")
    case None
    then show ?thesis by (simp add: inner0_def dict_get_def)
  next
    case (Some inner)
    from principals_fresh [OF cd0 _ Some] have "cast_fresh pd inner" by simp
    with Some show ?thesis by (simp add: inner0_def dict_get_def)
  qed
  have closed: "cd m = map_option (map (add_chars m (db_characters db))) (cd0 m)"
  proof (rule characters_closed [OF cd])
    fix inner assume "cd0 m = Some inner"
    from principals_fresh [OF cd0 _ this] show "distinct (map fst inner)"
      by (simp add: cast_fresh_def)
  qed
  have cast_inner: "cast d = map (snd \<circ> add_chars m (db_characters db)) inner0"
    using closed f_cast by (cases "cd0 m") (simp_all add: m_def inner0_def dict_get_def)
  have cast_closed: "cast d = map (\<lambda>p. \<lparr>person_id = p, name = person_name pd p,
        characters = characters_of m p (db_characters db)\<rparr>) (map fst inner0)"
    unfolding cast_inner map_map
    by (rule map_cong [OF refl]) (simp add: add_chars_fresh [OF fresh])
  have keys: "set (map fst inner0) = {p. \<exists>r\<in>set (db_principals db). r ''movie_id'' = Some m \<and>
                  r ''person_id'' = Some p}"
    using principals_keys [OF cd0, of m] by (simp add: inner0_def dict_get_def)
  have named: "r ''name'' \<noteq> None"
    if "r \<in> set (db_characters db)" "r ''movie_id'' = Some m" "r ''person_id'' = Some p"
      "p \<in> set (map fst inner0)" for r p
  proof -
    from that(4) have "\<not> orphan cd0 m p"
      by (cases "cd0 m") (auto simp: orphan_def inner0_def dict_get_def map_of_None_keys)
    from characters_named [OF cd that(1,2,3) this] show ?thesis .
  qed
  show thesis
  proof (rule that [of pd "map fst inner0"])
    show "for_each add_person Map.empty (db_persons db) = Inr pd" by (rule pd)
    show "rating d = \<lparr>average = VNone, votes = VNum 0\<rparr>"
      if "\<forall>r\<in>set (db_ratings db). r ''movie_id'' \<noteq> Some (doc_id d)"
      using ratings_frame [OF rd that] f_rating by (simp add: dict_get_def)
    show "genres d = []" if "\<forall>r\<in>set (db_genres db). r ''movie_id'' \<noteq> Some (doc_id d)"
      using genres_frame [OF gd that] f_genres by (simp add: dict_get_def)
    show "directors d = credits_of pd (doc_id d) (db_directors db)"
      using credits_closed [OF dd, of "doc_id d"] f_directors by (simp add: dict_get_def)
    then show "length (directors d) =
        length (filter (\<lambda>r. r ''movie_id'' = Some (doc_id d)) (db_directors db))"
      using credits_count [OF dd, of "doc_id d"] by simp
    show "writers d = credits_of pd (doc_id d) (db_writers db)"
      using credits_closed [OF wd, of "doc_id d"] f_writers by (simp add: dict_get_def)
    then show "length (writers d) =
        length (filter (\<lambda>r. r ''movie_id'' = Some (doc_id d)) (db_writers db))"
      using credits_count [OF wd, of "doc_id d"] by simp
    show "distinct (map fst inner0)" using fresh by (simp add: cast_fresh_def)
    show "set (map fst inner0) = {p. \<exists>r\<in>set (db_principals db). r ''movie_id'' = Some (doc_id d) \<and>
                  r ''person_id'' = Some p}"
      using keys by (simp add: m_def)
    show "cast d = map (\<lambda>p. \<lparr>person_id = p, name = person_name pd p,
                         characters = characters_of (doc_id d) p (db_characters db)\<rparr>)
                    (map fst inner0)"
      using cast_closed by (simp add: m_def)
    show "r ''name'' \<noteq> None"
      if "r \<in> set (db_characters db)" "r ''movie_id'' = Some (doc_id d)"
        "r ''person_id'' = Some p" "p \<in> set (map fst inner0)" for r p
      using named [of r p] that by (simp add: m_def)
  qed
qed

lemma dict_keys_doc:
  "dict_keys (doc_to_dict d) = [''_id'', ''title'', ''year'', ''runtime'', ''rating'', ''genres'',
     ''directors'', ''cast'', ''writers'']"
  by (simp add: doc_to_dict_def)

lemma build_length:
  assumes "build_documents db = Inr docs"
  shows "length docs = length (db_movies db)"
proof -
  from assms obtain rd gd dd cd wd where "assemble rd gd dd cd wd (db_movies db) = Inr docs"
    by (rule build_documentsE)
  then show ?thesis
    by (simp add: assemble_eq_Inr list_all2_lengthD)
qed

subsection \<open>The store\<close>

lemma insert_ordered_None:
  "insert_ordered c ds = (None, c') \<Longrightarrow> c' = c\<lparr>coll_docs := coll_docs c @ ds\<rparr>"
proof (induction ds arbitrary: c)
  case Nil
  then show ?case by simp
next
  case (Cons d ds)
  from Cons.prems have fresh: "doc_id d \<notin> set (map doc_id (coll_docs c))"
    and rest: "insert_ordered (c\<lparr>coll_docs := coll_docs c @ [d]\<rparr>) ds = (None, c')"
    by (auto split: if_splits)
  from Cons.IH [OF rest] show ?case by simp
qed

lemma insert_ordered_ok:
  "distinct (map doc_id ds) \<Longrightarrow> set (map doc_id ds) \<inter> set (map doc_id (coll_docs c)) = {} \<Longrightarrow>
   insert_ordered c ds = (None, c\<lparr>coll_docs := coll_docs c @ ds\<rparr>)"
proof (induction ds arbitrary: c)
  case Nil
  then show ?case by simp
next
  case (Cons d ds)
  from Cons.prems have fresh: "doc_id d \<notin> set (map doc_id (coll_docs c))" by auto
  have "insert_ordered (c\<lparr>coll_docs := coll_docs c @ [d]\<rparr>) ds
        = (None, c\<lparr>coll_docs := coll_docs c @ [d]\<rparr>\<lparr>coll_docs :=
             coll_docs (c\<lparr>coll_docs := coll_docs c @ [d]\<rparr>) @ ds\<rparr>)"
    using Cons.prems by (intro Cons.IH) auto
  with fresh show ?case by simp
qed

lemma insert_ordered_append:
  "insert_ordered c (xs @ ys) =
     (case insert_ordered c xs of (Some e, c') \<Rightarrow> (Some e, c')
      | (None, c') \<Rightarrow> insert_ordered c' ys)"
proof (induction xs arbitrary: c)
  case Nil
  show ?case by simp
next
  case (Cons x xs)
  show ?case by (simp add: Cons.IH)
qed


lemma exec_inserts:
  "\<forall>b\<in>set bs. b \<noteq> [] \<Longrightarrow> insert_ordered c (concat bs) = (None, c') \<Longrightarrow>
   exec_ops c (map InsertMany bs @ calls) =
     (case exec_ops c' calls of (e, made, c'') \<Rightarrow> (e, map InsertMany bs @ made, c''))"
proof (induction bs arbitrary: c)
  case Nil
  then show ?case by simp
next
  case (Cons b bs)
  from Cons.prems(2) obtain c1 where b: "insert_ordered c b = (None, c1)"
    and rest: "insert_ordered c1 (concat bs) = (None, c')"
    by (cases "insert_ordered c b") (auto simp: insert_ordered_append split: option.splits)
  from Cons.prems(1) have "b \<noteq> []" and "\<forall>b\<in>set bs. b \<noteq> []" by simp_all
  from Cons.IH [OF this(2) rest] b \<open>b \<noteq> []\<close> show ?case
    by (simp add: insert_many_def split: prod.splits)
qed

lemma exec_inserts_raise:
  "\<forall>b\<in>set bs. b \<noteq> [] \<Longrightarrow> insert_ordered c (concat bs) = (Some e, c') \<Longrightarrow>
   \<exists>n<length bs. exec_ops c (map InsertMany bs @ calls) =
     (Some e, map InsertMany (take (Suc n) bs), c')"
proof (induction bs arbitrary: c)
  case Nil
  then show ?case by simp
next
  case (Cons b bs)
  from Cons.prems(1) have nonempty: "b \<noteq> []" and rest_nonempty: "\<forall>b\<in>set bs. b \<noteq> []"
    by simp_all
  obtain e1 c1 where b: "insert_ordered c b = (e1, c1)" by (cases "insert_ordered c b")
  show ?case
  proof (cases e1)
    case (Some e2)
    with b Cons.prems(2) have "e2 = e" "c1 = c'"
      by (simp_all add: insert_ordered_append)
    with b Some nonempty have "exec_ops c (map InsertMany (b # bs) @ calls) =
        (Some e, map InsertMany (take (Suc 0) (b # bs)), c')"
      by (simp add: insert_many_def)
    then show ?thesis by blast
  next
    case None
    with b Cons.prems(2) have "insert_ordered c1 (concat bs) = (Some e, c')"
      by (simp add: insert_ordered_append)
    from Cons.IH [OF rest_nonempty this] obtain n where n: "n < length bs"
      and run: "exec_ops c1 (map InsertMany bs @ calls) =
        (Some e, map InsertMany (take (Suc n) bs), c')"
      by blast
    from b None nonempty run have "exec_ops c (map InsertMany (b # bs) @ calls) =
        (Some e, map InsertMany (take (Suc (Suc n)) (b # bs)), c')"
      by (simp add: insert_many_def)
    with n show ?thesis by auto
  qed
qed

lemma batches_nonempty: "\<forall>b\<in>set (batches docs). b \<noteq> []"
  using batch_nonempty [of _ docs] by (auto simp: in_set_conv_nth)

lemma exec_create_indexes:
  "exec_ops c (map CreateIndex [''title'', ''year'', ''genres'', ''rating.average'']) =
     (None, map CreateIndex [''title'', ''year'', ''genres'', ''rating.average''],
      c\<lparr>coll_indexes := coll_indexes c \<union> {''title'', ''year'', ''genres'', ''rating.average''}\<rparr>)"
proof -
  have "insert ''rating.average'' (insert ''genres'' (insert ''year'' (insert ''title''
          (coll_indexes c))))
        = coll_indexes c \<union> {''title'', ''year'', ''genres'', ''rating.average''}"
    by blast
  then show ?thesis by simp
qed


subsection \<open>Steps 9 and 10 of a run\<close>

lemma run_traced_independent:
  "build_documents db = Inr docs \<Longrightarrow>
   build_movies_complete_traced db dest = build_movies_complete_traced db dest'"
  by (simp add: build_movies_complete_traced_def load_ops_def)

lemma run_traced_ok:
  assumes run: "build_documents db = Inr docs" and ids: "distinct (map doc_id docs)"
  shows "build_movies_complete_traced db dest =
     (None, load_ops docs,
      \<lparr>coll_docs = docs, coll_indexes = {''title'', ''year'', ''genres'', ''rating.average''}\<rparr>)"
proof -
  let ?c0 = "\<lparr>coll_docs = [], coll_indexes = {}\<rparr>"
  from ids have "insert_ordered ?c0 (concat (batches docs)) = (None, ?c0\<lparr>coll_docs := docs\<rparr>)"
    using insert_ordered_ok [of docs ?c0] by (simp add: concat_batches)
  from exec_inserts [OF batches_nonempty this] show ?thesis
    by (auto simp: build_movies_complete_traced_def run load_ops_def exec_create_indexes)
qed


lemma run_returns_docs:
  assumes "build_movies_complete db dest = (None, out)"
  shows "build_documents db = Inr (coll_docs out) \<and>
         out = \<lparr>coll_docs = coll_docs out,
                coll_indexes = {''title'', ''year'', ''genres'', ''rating.average''}\<rparr>"
proof (cases "build_documents db")
  case (Inl e)
  with assms show ?thesis
    by (simp add: build_movies_complete_def build_movies_complete_traced_def)
next
  case (Inr docs)
  let ?c0 = "\<lparr>coll_docs = [], coll_indexes = {}\<rparr>"
  let ?keys = "map CreateIndex [''title'', ''year'', ''genres'', ''rating.average'']"
  obtain e c1 where ins: "insert_ordered ?c0 (concat (batches docs)) = (e, c1)"
    by (cases "insert_ordered ?c0 (concat (batches docs))")
  show ?thesis
  proof (cases e)
    case (Some e1)
    with ins have ins': "insert_ordered ?c0 (concat (batches docs)) = (Some e1, c1)" by simp
    from exec_inserts_raise [where calls = ?keys, OF batches_nonempty ins']
    obtain n where "exec_ops ?c0 (map InsertMany (batches docs) @ ?keys) =
        (Some e1, map InsertMany (take (Suc n) (batches docs)), c1)"
      by blast
    with assms Inr show ?thesis
      by (simp add: build_movies_complete_def build_movies_complete_traced_def load_ops_def)
  next
    case None
    with ins have ins': "insert_ordered ?c0 (concat (batches docs)) = (None, c1)" by simp
    from insert_ordered_None [OF ins'] have c1: "c1 = \<lparr>coll_docs = docs, coll_indexes = {}\<rparr>"
      by (simp add: concat_batches)
    from exec_inserts [where calls = ?keys, OF batches_nonempty ins'] assms Inr c1
    have "out = \<lparr>coll_docs = docs,
                 coll_indexes = {''title'', ''year'', ''genres'', ''rating.average''}\<rparr>"
      by (auto simp: build_movies_complete_def build_movies_complete_traced_def load_ops_def
          exec_create_indexes)
    with Inr show ?thesis by simp
  qed
qed

lemma run_independent:
  "build_documents db = Inr docs \<Longrightarrow> build_movies_complete db dest = build_movies_complete db dest'"
  using run_traced_independent [of db docs dest dest'] by (simp add: build_movies_complete_def)

lemma run_ok:
  "build_documents db = Inr docs \<Longrightarrow> distinct (map doc_id docs) \<Longrightarrow>
   build_movies_complete db dest =
     (None, \<lparr>coll_docs = docs, coll_indexes = {''title'', ''year'', ''genres'', ''rating.average''}\<rparr>)"
  by (simp add: build_movies_complete_def run_traced_ok)




subsection \<open>The build on the concrete inputs\<close>

lemma build_alpha_db: "build_documents alpha_db = Inr [alpha_doc]"
  by (simp add: build_documents_def alpha_db_def assemble_def make_doc_def movie_alpha_def
      alpha_doc_def dict_get_def)

lemma build_cast_db: "build_documents cast_db = Inr [cast_doc]"
  by (simp add: build_documents_def cast_db_def cast_doc_def movie_alpha_def bnd_def getitem_def
      dict_get_def add_principal_def add_character_def person_name_def make_doc_def assemble_def)

lemma build_orphan_db: "build_documents orphan_db = Inr [orphan_doc]"
  by (simp add: build_documents_def orphan_db_def orphan_doc_def credit_m2_p9_def bnd_def
      getitem_def dict_get_def add_person_def add_credit_def add_principal_def person_name_def
      make_doc_def assemble_def)

lemma build_scenario_db:
  "build_documents scenario_db =
   Inr [\<lparr>doc_id = VStr ''m1'', title = VStr ''Alpha'', year = VNum 2000, runtime = VNum 100,
         rating = \<lparr>average = VNum 8.5, votes = VNum 1000\<rparr>,
         genres = [VStr ''Drama''],
         directors = [\<lparr>person_id = VStr ''p2'', name = VStr ''B. Director''\<rparr>],
         cast = [\<lparr>person_id = VStr ''p1'', name = VStr ''A. Actor'',
                  characters = [VStr ''Hero'', VStr ''Narrator'']\<rparr>],
         writers = []\<rparr>]"
  by (simp add: scenario_db_def build_documents_def bnd_def getitem_def dict_get_def
      add_rating_def add_genre_def add_person_def add_credit_def add_principal_def
      add_character_def person_name_def make_doc_def assemble_def)




section \<open>The claims\<close>

text \<open>
  C1. The Document Assembler produces exactly one composite document per movie record:
  whenever the loop of step 8 returns, it returns as many documents as there are movie
  records, the i-th document carrying the identifier of the i-th record; and it does
  return whenever every record has the three fields the loop subscripts. The same holds
  of the build as a whole, which returns on rows that have their fields.
\<close>

theorem one_document_per_movie:
  "(assemble rd gd dd cd wd movies = Inr docs \<longrightarrow>
      length docs = length movies \<and>
      list_all2 (\<lambda>movie d. movie ''movie_id'' = Some (doc_id d)) movies docs) \<and>
   ((\<forall>movie\<in>set movies. movie ''movie_id'' \<noteq> None \<and> movie ''primary_title'' \<noteq> None \<and>
        movie ''start_year'' \<noteq> None) \<longrightarrow>
      (\<exists>docs'. assemble rd gd dd cd wd movies = Inr docs' \<and> length docs' = length movies)) \<and>
   (build_documents db = Inr complete_movies \<longrightarrow>
      length complete_movies = length (db_movies db)) \<and>
   (well_formed db \<longrightarrow>
      (\<exists>complete_movies'. build_documents db = Inr complete_movies' \<and>
         length complete_movies' = length (db_movies db)))"
proof (intro conjI impI)
  assume run: "assemble rd gd dd cd wd movies = Inr docs"
  then have all2: "list_all2 (\<lambda>movie d. make_doc rd gd dd cd wd movie = Inr d) movies docs"
    by (simp add: assemble_eq_Inr)
  then show "length docs = length movies"
    by (simp add: list_all2_lengthD)
  show "list_all2 (\<lambda>movie d. movie ''movie_id'' = Some (doc_id d)) movies docs"
    by (rule list_all2_mono [OF all2]) (auto simp: make_doc_eq_Inr)
next
  assume "\<forall>movie\<in>set movies. movie ''movie_id'' \<noteq> None \<and> movie ''primary_title'' \<noteq> None \<and>
        movie ''start_year'' \<noteq> None"
  then obtain docs' where run: "assemble rd gd dd cd wd movies = Inr docs'"
    using assemble_returns [of rd gd dd cd wd movies] by blast
  then have "length docs' = length movies"
    by (simp add: assemble_eq_Inr list_all2_lengthD)
  with run show "\<exists>docs'. assemble rd gd dd cd wd movies = Inr docs' \<and> length docs' = length movies"
    by blast
next
  assume "build_documents db = Inr complete_movies"
  then show "length complete_movies = length (db_movies db)"
    by (rule build_length)
next
  assume "well_formed db"
  then obtain complete_movies' where run: "build_documents db = Inr complete_movies'"
    using build_returns by blast
  from build_length [OF run] run
  show "\<exists>complete_movies'. build_documents db = Inr complete_movies' \<and>
         length complete_movies' = length (db_movies db)"
    by blast
qed

text \<open>Witness for C1: two records, two documents; and a database of one movie.\<close>

theorem one_document_per_movie_witness:
  "assemble Map.empty Map.empty Map.empty Map.empty Map.empty [movie_alpha, movie_alpha]
     = Inr [alpha_doc, alpha_doc] \<and>
   length [alpha_doc, alpha_doc] = length [movie_alpha, movie_alpha] \<and>
   build_documents alpha_db = Inr [alpha_doc] \<and>
   length [alpha_doc] = length (db_movies alpha_db) \<and>
   well_formed alpha_db"
proof -
  have run: "assemble Map.empty Map.empty Map.empty Map.empty Map.empty [movie_alpha, movie_alpha]
     = Inr [alpha_doc, alpha_doc]"
    by (simp add: assemble_def make_doc_def movie_alpha_def alpha_doc_def dict_get_def)
  have wf: "well_formed alpha_db"
    by (simp add: well_formed_def has_fields_def alpha_db_def movie_alpha_def)
  note inst = one_document_per_movie [of Map.empty Map.empty Map.empty Map.empty Map.empty
      "[movie_alpha, movie_alpha]" "[alpha_doc, alpha_doc]" alpha_db "[alpha_doc]"]
  from inst run have "length [alpha_doc, alpha_doc] = length [movie_alpha, movie_alpha]"
    by blast
  moreover from inst build_alpha_db have "length [alpha_doc] = length (db_movies alpha_db)"
    by blast
  ultimately show ?thesis
    using run build_alpha_db wf by blast
qed

text \<open>
  C2. In every document of a build that returns, that is after both passes of the cast,
  no person occurs twice in the cast, and the characters of a cast entry are the names of
  the character rows of that movie and that person, all of them, in the order of the
  characters collection, duplicates kept and nothing else; every such row has a name, so
  none is left out. The persons of the cast are those of the movie's principal rows.
\<close>

theorem cast_entries_characters:
  assumes run: "build_documents db = Inr docs" and d: "d \<in> set docs"
  shows "distinct (map person_id (cast d)) \<and>
         (\<forall>e\<in>set (cast d).
            characters e = characters_of (doc_id d) (person_id e) (db_characters db) \<and>
            (\<forall>r\<in>set (db_characters db).
               r ''movie_id'' = Some (doc_id d) \<and> r ''person_id'' = Some (person_id e) \<longrightarrow>
               r ''name'' \<noteq> None)) \<and>
         set (map person_id (cast d)) =
           {p. \<exists>r\<in>set (db_principals db). r ''movie_id'' = Some (doc_id d) \<and>
                 r ''person_id'' = Some p}"
proof (rule document_parts [OF run d])
  fix pd ps
  assume ps: "distinct ps"
    and keys: "set ps = {p. \<exists>r\<in>set (db_principals db). r ''movie_id'' = Some (doc_id d) \<and>
                  r ''person_id'' = Some p}"
    and cast: "cast d = map (\<lambda>p. \<lparr>person_id = p, name = person_name pd p,
                         characters = characters_of (doc_id d) p (db_characters db)\<rparr>) ps"
    and named: "\<And>r p. r \<in> set (db_characters db) \<Longrightarrow> r ''movie_id'' = Some (doc_id d) \<Longrightarrow>
       r ''person_id'' = Some p \<Longrightarrow> p \<in> set ps \<Longrightarrow> r ''name'' \<noteq> None"
  from cast have ids: "map person_id (cast d) = ps"
    by (simp add: comp_def)
  with ps have "distinct (map person_id (cast d))" by simp
  moreover from ids keys have "set (map person_id (cast d)) =
           {p. \<exists>r\<in>set (db_principals db). r ''movie_id'' = Some (doc_id d) \<and>
                 r ''person_id'' = Some p}"
    by simp
  moreover have "characters e = characters_of (doc_id d) (person_id e) (db_characters db) \<and>
            (\<forall>r\<in>set (db_characters db).
               r ''movie_id'' = Some (doc_id d) \<and> r ''person_id'' = Some (person_id e) \<longrightarrow>
               r ''name'' \<noteq> None)" if "e \<in> set (cast d)" for e
  proof -
    from that cast obtain p where p: "p \<in> set ps" and e: "e = \<lparr>person_id = p,
        name = person_name pd p, characters = characters_of (doc_id d) p (db_characters db)\<rparr>"
      by auto
    from e have "characters e = characters_of (doc_id d) (person_id e) (db_characters db)"
      by simp
    moreover from e p named have "\<forall>r\<in>set (db_characters db).
               r ''movie_id'' = Some (doc_id d) \<and> r ''person_id'' = Some (person_id e) \<longrightarrow>
               r ''name'' \<noteq> None"
      by simp
    ultimately show ?thesis ..
  qed
  ultimately show ?thesis by blast
qed

text \<open>Witness for C2: a person listed twice as principal, a name recorded twice, and a row
  of another movie.\<close>

theorem cast_entries_characters_witness:
  "build_documents cast_db = Inr [cast_doc] \<and>
   distinct (map person_id (cast cast_doc)) \<and>
   map characters (cast cast_doc) = [[VStr ''Hero'', VStr ''Hero''], [VStr ''Villain'']] \<and>
   map (\<lambda>e. characters_of (doc_id cast_doc) (person_id e) (db_characters cast_db)) (cast cast_doc)
     = map characters (cast cast_doc)"
proof -
  have d: "cast_doc \<in> set [cast_doc]" by simp
  from cast_entries_characters [OF build_cast_db d]
  have "distinct (map person_id (cast cast_doc))" and
    "\<forall>e\<in>set (cast cast_doc).
       characters e = characters_of (doc_id cast_doc) (person_id e) (db_characters cast_db)"
    by blast+
  then show ?thesis
    using build_cast_db by (simp add: cast_doc_def)
qed

text \<open>
  C3. In every document of a build that returns, a movie without a row in a relation has
  the default in the field of that relation: the rating with a null average and 0 votes,
  and the empty list for genres, directors, cast and writers. The dict written for the
  document always has its nine keys, so no field is ever absent.
\<close>

theorem absent_associations_default:
  assumes run: "build_documents db = Inr docs" and d: "d \<in> set docs"
  shows "((\<forall>r\<in>set (db_ratings db). r ''movie_id'' \<noteq> Some (doc_id d)) \<longrightarrow>
            rating d = \<lparr>average = VNone, votes = VNum 0\<rparr>) \<and>
         ((\<forall>r\<in>set (db_genres db). r ''movie_id'' \<noteq> Some (doc_id d)) \<longrightarrow> genres d = []) \<and>
         ((\<forall>r\<in>set (db_directors db). r ''movie_id'' \<noteq> Some (doc_id d)) \<longrightarrow> directors d = []) \<and>
         ((\<forall>r\<in>set (db_principals db). r ''movie_id'' \<noteq> Some (doc_id d)) \<longrightarrow> cast d = []) \<and>
         ((\<forall>r\<in>set (db_writers db). r ''movie_id'' \<noteq> Some (doc_id d)) \<longrightarrow> writers d = []) \<and>
         dict_keys (doc_to_dict d) = [''_id'', ''title'', ''year'', ''runtime'', ''rating'',
           ''genres'', ''directors'', ''cast'', ''writers'']"
proof (rule document_parts [OF run d])
  fix pd ps
  assume rating: "\<forall>r\<in>set (db_ratings db). r ''movie_id'' \<noteq> Some (doc_id d) \<Longrightarrow>
       rating d = \<lparr>average = VNone, votes = VNum 0\<rparr>"
    and genres: "\<forall>r\<in>set (db_genres db). r ''movie_id'' \<noteq> Some (doc_id d) \<Longrightarrow> genres d = []"
    and directors: "length (directors d) =
       length (filter (\<lambda>r. r ''movie_id'' = Some (doc_id d)) (db_directors db))"
    and writers: "length (writers d) =
       length (filter (\<lambda>r. r ''movie_id'' = Some (doc_id d)) (db_writers db))"
    and keys: "set ps = {p. \<exists>r\<in>set (db_principals db). r ''movie_id'' = Some (doc_id d) \<and>
                  r ''person_id'' = Some p}"
    and cast: "cast d = map (\<lambda>p. \<lparr>person_id = p, name = person_name pd p,
                         characters = characters_of (doc_id d) p (db_characters db)\<rparr>) ps"
  have "directors d = []" if "\<forall>r\<in>set (db_directors db). r ''movie_id'' \<noteq> Some (doc_id d)"
  proof -
    from that have "filter (\<lambda>r. r ''movie_id'' = Some (doc_id d)) (db_directors db) = []"
      by (simp add: filter_empty_conv)
    with directors show ?thesis by simp
  qed
  moreover have "writers d = []" if "\<forall>r\<in>set (db_writers db). r ''movie_id'' \<noteq> Some (doc_id d)"
  proof -
    from that have "filter (\<lambda>r. r ''movie_id'' = Some (doc_id d)) (db_writers db) = []"
      by (simp add: filter_empty_conv)
    with writers show ?thesis by simp
  qed
  moreover have "cast d = []" if "\<forall>r\<in>set (db_principals db). r ''movie_id'' \<noteq> Some (doc_id d)"
  proof -
    from that keys have "set ps = {}" by simp
    with cast show ?thesis by simp
  qed
  ultimately show ?thesis
    using rating genres dict_keys_doc [of d] by blast
qed

text \<open>Witness for C3: a movie alone in the database.\<close>

theorem absent_associations_default_witness:
  "build_documents alpha_db = Inr [alpha_doc] \<and>
   rating alpha_doc = \<lparr>average = VNone, votes = VNum 0\<rparr> \<and> genres alpha_doc = [] \<and>
   directors alpha_doc = [] \<and> cast alpha_doc = [] \<and> writers alpha_doc = []"
proof -
  have d: "alpha_doc \<in> set [alpha_doc]" by simp
  have "db_ratings alpha_db = []" "db_genres alpha_db = []" "db_directors alpha_db = []"
    "db_principals alpha_db = []" "db_writers alpha_db = []"
    by (simp_all add: alpha_db_def)
  with absent_associations_default [OF build_alpha_db d] build_alpha_db
  show ?thesis by simp
qed

text \<open>
  C4. For a person without a row in \<^verbatim>\<open>persons\<close>, the name looked up is the string
  \<^verbatim>\<open>"Unknown"\<close>; \<open>person_name\<close> is a total function, it has no error to return. A
  director, writer or principal row naming that person gives the movie's document an entry
  with that name; directors and writers have one entry per row of the movie; and the build
  returns on rows that have their fields, whether the persons they name exist or not.
\<close>

theorem unknown_person_kept:
  assumes none: "\<forall>q\<in>set (db_persons db). q ''person_id'' \<noteq> Some p"
  shows "(\<forall>pd. for_each add_person Map.empty (db_persons db) = Inr pd \<longrightarrow>
            person_name pd p = VStr ''Unknown'') \<and>
         (\<forall>docs d r. build_documents db = Inr docs \<and> d \<in> set docs \<and>
              r ''movie_id'' = Some (doc_id d) \<and> r ''person_id'' = Some p \<longrightarrow>
            (r \<in> set (db_directors db) \<longrightarrow>
               \<lparr>person_id = p, name = VStr ''Unknown''\<rparr> \<in> set (directors d)) \<and>
            (r \<in> set (db_writers db) \<longrightarrow>
               \<lparr>person_id = p, name = VStr ''Unknown''\<rparr> \<in> set (writers d)) \<and>
            (r \<in> set (db_principals db) \<longrightarrow>
               (\<exists>e\<in>set (cast d). person_id e = p \<and> name e = VStr ''Unknown''))) \<and>
         (\<forall>docs d. build_documents db = Inr docs \<and> d \<in> set docs \<longrightarrow>
            length (directors d) =
              length (filter (\<lambda>r. r ''movie_id'' = Some (doc_id d)) (db_directors db)) \<and>
            length (writers d) =
              length (filter (\<lambda>r. r ''movie_id'' = Some (doc_id d)) (db_writers db))) \<and>
         (well_formed db \<longrightarrow> (\<exists>docs. build_documents db = Inr docs))"
proof (intro conjI allI impI)
  fix pd assume "for_each add_person Map.empty (db_persons db) = Inr pd"
  from persons_frame [OF this none] show "person_name pd p = VStr ''Unknown''"
    by (simp add: person_name_def dict_get_def)
next
  assume "well_formed db"
  then show "\<exists>docs. build_documents db = Inr docs" by (rule build_returns)
next
  fix docs d
  assume "build_documents db = Inr docs \<and> d \<in> set docs"
  then have run: "build_documents db = Inr docs" and d: "d \<in> set docs" by simp_all
  show "length (directors d) =
      length (filter (\<lambda>r. r ''movie_id'' = Some (doc_id d)) (db_directors db))"
    by (rule document_parts [OF run d])
  show "length (writers d) =
      length (filter (\<lambda>r. r ''movie_id'' = Some (doc_id d)) (db_writers db))"
    by (rule document_parts [OF run d])
next
  fix docs d r
  assume "build_documents db = Inr docs \<and> d \<in> set docs \<and>
              r ''movie_id'' = Some (doc_id d) \<and> r ''person_id'' = Some p"
  then have run: "build_documents db = Inr docs" and d: "d \<in> set docs"
    and r: "r ''movie_id'' = Some (doc_id d)" "r ''person_id'' = Some p" by simp_all
  have "(r \<in> set (db_directors db) \<longrightarrow>
               \<lparr>person_id = p, name = VStr ''Unknown''\<rparr> \<in> set (directors d)) \<and>
            (r \<in> set (db_writers db) \<longrightarrow>
               \<lparr>person_id = p, name = VStr ''Unknown''\<rparr> \<in> set (writers d)) \<and>
            (r \<in> set (db_principals db) \<longrightarrow>
               (\<exists>e\<in>set (cast d). person_id e = p \<and> name e = VStr ''Unknown''))"
  proof (rule document_parts [OF run d])
    fix pd ps
    assume pd: "for_each add_person Map.empty (db_persons db) = Inr pd"
      and directors: "directors d = credits_of pd (doc_id d) (db_directors db)"
      and writers: "writers d = credits_of pd (doc_id d) (db_writers db)"
      and keys: "set ps = {p. \<exists>r\<in>set (db_principals db). r ''movie_id'' = Some (doc_id d) \<and>
                  r ''person_id'' = Some p}"
      and cast: "cast d = map (\<lambda>p. \<lparr>person_id = p, name = person_name pd p,
                         characters = characters_of (doc_id d) p (db_characters db)\<rparr>) ps"
    from persons_frame [OF pd none] have unknown: "person_name pd p = VStr ''Unknown''"
      by (simp add: person_name_def dict_get_def)
    have "\<lparr>person_id = p, name = VStr ''Unknown''\<rparr> \<in> set (directors d)"
      if "r \<in> set (db_directors db)"
      using credits_member [OF that r, of pd] directors unknown by simp
    moreover have "\<lparr>person_id = p, name = VStr ''Unknown''\<rparr> \<in> set (writers d)"
      if "r \<in> set (db_writers db)"
      using credits_member [OF that r, of pd] writers unknown by simp
    moreover have "\<exists>e\<in>set (cast d). person_id e = p \<and> name e = VStr ''Unknown''"
      if "r \<in> set (db_principals db)"
    proof -
      from that r keys have "p \<in> set ps" by auto
      with cast have "\<lparr>person_id = p, name = person_name pd p,
          characters = characters_of (doc_id d) p (db_characters db)\<rparr> \<in> set (cast d)"
        by simp
      with unknown show ?thesis by force
    qed
    ultimately show ?thesis by blast
  qed
  then show "r \<in> set (db_directors db) \<Longrightarrow>
      \<lparr>person_id = p, name = VStr ''Unknown''\<rparr> \<in> set (directors d)"
    and "r \<in> set (db_writers db) \<Longrightarrow>
      \<lparr>person_id = p, name = VStr ''Unknown''\<rparr> \<in> set (writers d)"
    and "r \<in> set (db_principals db) \<Longrightarrow>
      \<exists>e\<in>set (cast d). person_id e = p \<and> name e = VStr ''Unknown''"
    by blast+
qed

text \<open>Witness for C4: the orphan scenario of the specification, person \<^verbatim>\<open>p9\<close> of movie
  \<^verbatim>\<open>m2\<close>.\<close>

theorem unknown_person_kept_witness:
  "build_documents orphan_db = Inr [orphan_doc] \<and>
   \<lparr>person_id = VStr ''p9'', name = VStr ''Unknown''\<rparr> \<in> set (directors orphan_doc) \<and>
   \<lparr>person_id = VStr ''p9'', name = VStr ''Unknown''\<rparr> \<in> set (writers orphan_doc) \<and>
   (\<exists>e\<in>set (cast orphan_doc). person_id e = VStr ''p9'' \<and> name e = VStr ''Unknown'') \<and>
   length (directors orphan_doc) = 1 \<and> well_formed orphan_db"
proof -
  have none: "\<forall>q\<in>set (db_persons orphan_db). q ''person_id'' \<noteq> Some (VStr ''p9'')"
    by (simp add: orphan_db_def)
  have row: "credit_m2_p9 ''movie_id'' = Some (doc_id orphan_doc)"
    "credit_m2_p9 ''person_id'' = Some (VStr ''p9'')"
    "credit_m2_p9 \<in> set (db_directors orphan_db)" "credit_m2_p9 \<in> set (db_writers orphan_db)"
    "credit_m2_p9 \<in> set (db_principals orphan_db)"
    by (simp_all add: credit_m2_p9_def orphan_doc_def orphan_db_def)
  have wf: "well_formed orphan_db"
    by (simp add: well_formed_def has_fields_def orphan_db_def credit_m2_p9_def)
  note inst = unknown_person_kept [OF none]
  from inst build_orphan_db row
  have "\<lparr>person_id = VStr ''p9'', name = VStr ''Unknown''\<rparr> \<in> set (directors orphan_doc)"
    by (metis list.set_intros(1))
  moreover from inst build_orphan_db row
  have "\<lparr>person_id = VStr ''p9'', name = VStr ''Unknown''\<rparr> \<in> set (writers orphan_doc)"
    by (metis list.set_intros(1))
  moreover from inst build_orphan_db row
  have "\<exists>e\<in>set (cast orphan_doc). person_id e = VStr ''p9'' \<and> name e = VStr ''Unknown''"
    by (metis list.set_intros(1))
  moreover have "length (directors orphan_doc) = 1"
    by (simp add: orphan_doc_def)
  ultimately show ?thesis
    using build_orphan_db wf by blast
qed

text \<open>
  C5, as stated, fails on the name of one field: the document written for the scenario has
  its identifier under the key \<^verbatim>\<open>_id\<close>, and no key \<^verbatim>\<open>id\<close>.
\<close>

theorem scenario_document_counterexample:
  "written_documents scenario_db \<noteq> Inr [JDict ((''id'', JVal (VStr ''m1'')) # scenario_rest)]"
  by (simp add: written_documents_def build_scenario_db doc_to_dict_def)

text \<open>
  C5, amended. On the concrete scenario the build returns one document, and the dict
  written for it is exactly that of the specification with \<^verbatim>\<open>_id\<close> for \<^verbatim>\<open>id\<close>: the same
  keys otherwise, in the same order, with the same values.
\<close>

theorem scenario_document_written:
  "written_documents scenario_db = Inr [JDict ((''_id'', JVal (VStr ''m1'')) # scenario_rest)]"
  by (simp add: written_documents_def build_scenario_db doc_to_dict_def scenario_rest_def
      rating_to_dict_def person_to_dict_def cast_to_dict_def)

text \<open>
  C6. A character row with its three fields, in pass 2 of the cast: when the cast has an
  entry for the row's movie and person, the name is appended to the characters of that
  entry, the order of the entries and every other entry staying as they were; when it has
  none, the step returns the cast unchanged, without raising, the loop gives what it gives
  without the row, and so does the whole build when no principal row names the pair.
\<close>

theorem character_row_appended_or_dropped:
  assumes r: "r ''movie_id'' = Some m" "r ''person_id'' = Some p" "r ''name'' = Some c"
  shows "(\<forall>inner e. cast_dict m = Some inner \<and> map_of inner p = Some e \<longrightarrow>
            (\<exists>inner'. add_character cast_dict r = Inr (cast_dict(m \<mapsto> inner')) \<and>
               map fst inner' = map fst inner \<and>
               map_of inner' p = Some (e\<lparr>characters := characters e @ [c]\<rparr>) \<and>
               (\<forall>q. q \<noteq> p \<longrightarrow> map_of inner' q = map_of inner q))) \<and>
         (orphan cast_dict m p \<longrightarrow>
            add_character cast_dict r = Inr cast_dict \<and>
            for_each add_character cast_dict (before @ r # after)
              = for_each add_character cast_dict (before @ after)) \<and>
         ((\<forall>q\<in>set (db_principals db). q ''movie_id'' \<noteq> Some m \<or> q ''person_id'' \<noteq> Some p) \<longrightarrow>
            build_documents (db\<lparr>db_characters := before @ r # after\<rparr>)
              = build_documents (db\<lparr>db_characters := before @ after\<rparr>))"
proof (intro conjI allI impI)
  fix inner e assume "cast_dict m = Some inner \<and> map_of inner p = Some e"
  then have inner: "cast_dict m = Some inner" and e: "map_of inner p = Some e" by simp_all
  let ?inner' = "update_entry p (\<lambda>e. e\<lparr>characters := characters e @ [c]\<rparr>) inner"
  have "add_character cast_dict r = Inr (cast_dict(m \<mapsto> ?inner'))"
    using r inner e by (simp add: add_character_hit)
  moreover have "map fst ?inner' = map fst inner" by simp
  moreover have "map_of ?inner' p = Some (e\<lparr>characters := characters e @ [c]\<rparr>)"
    using e by (simp add: map_of_update_entry)
  moreover have "\<forall>q. q \<noteq> p \<longrightarrow> map_of ?inner' q = map_of inner q"
    by (simp add: map_of_update_entry)
  ultimately show "\<exists>inner'. add_character cast_dict r = Inr (cast_dict(m \<mapsto> inner')) \<and>
               map fst inner' = map fst inner \<and>
               map_of inner' p = Some (e\<lparr>characters := characters e @ [c]\<rparr>) \<and>
               (\<forall>q. q \<noteq> p \<longrightarrow> map_of inner' q = map_of inner q)"
    by blast
next
  assume "orphan cast_dict m p"
  with r show "add_character cast_dict r = Inr cast_dict"
    by (simp add: add_character_orphan)
next
  assume "orphan cast_dict m p"
  with r show "for_each add_character cast_dict (before @ r # after)
              = for_each add_character cast_dict (before @ after)"
    by (simp add: characters_drop_orphan)
next
  assume none: "\<forall>q\<in>set (db_principals db). q ''movie_id'' \<noteq> Some m \<or> q ''person_id'' \<noteq> Some p"
  show "build_documents (db\<lparr>db_characters := before @ r # after\<rparr>)
              = build_documents (db\<lparr>db_characters := before @ after\<rparr>)"
    unfolding build_documents_def
  proof (simp, intro bnd_cong)
    fix rd gd pd dd cd0
    assume "for_each (add_principal pd) Map.empty (db_principals db) = Inr cd0"
    from principals_orphan [OF this none] have "orphan cd0 m p" .
    with r have "for_each add_character cd0 (before @ r # after)
              = for_each add_character cd0 (before @ after)"
      by (simp add: characters_drop_orphan)
    then show "bnd (for_each add_character cd0 (before @ r # after))
          (\<lambda>cast_dict. bnd (for_each (add_credit pd) Map.empty (db_writers db))
             (\<lambda>writers_dict. assemble rd gd dd cast_dict writers_dict (db_movies db)))
        = bnd (for_each add_character cd0 (before @ after))
          (\<lambda>cast_dict. bnd (for_each (add_credit pd) Map.empty (db_writers db))
             (\<lambda>writers_dict. assemble rd gd dd cast_dict writers_dict (db_movies db)))"
      by simp
  qed
qed

text \<open>Witness for C6: a second character for an actor of the cast, and a row for a person who
  is not in it.\<close>

theorem character_row_appended_or_dropped_witness:
  "add_character cast_one character_narrator =
     Inr [VStr ''m1'' \<mapsto> [(VStr ''p1'', actor_entry\<lparr>characters := [VStr ''Hero'', VStr ''Narrator'']\<rparr>)]] \<and>
   (\<exists>inner'. add_character cast_one character_narrator = Inr (cast_one(VStr ''m1'' \<mapsto> inner')) \<and>
      map_of inner' (VStr ''p1'') = Some (actor_entry\<lparr>characters := [VStr ''Hero'', VStr ''Narrator'']\<rparr>)) \<and>
   orphan cast_one (VStr ''m1'') (VStr ''p7'') \<and>
   add_character cast_one character_ghost = Inr cast_one \<and>
   for_each add_character cast_one [character_narrator, character_ghost]
     = for_each add_character cast_one [character_narrator] \<and>
   build_documents (alpha_db\<lparr>db_characters := [character_ghost]\<rparr>) = Inr [alpha_doc]"
proof -
  have ghost: "character_ghost ''movie_id'' = Some (VStr ''m1'')"
    "character_ghost ''person_id'' = Some (VStr ''p7'')"
    "character_ghost ''name'' = Some (VStr ''Ghost'')"
    by (simp_all add: character_ghost_def)
  have orph: "orphan cast_one (VStr ''m1'') (VStr ''p7'')"
    by (simp add: orphan_def cast_one_def)
  have noprincipal: "\<forall>q\<in>set (db_principals alpha_db).
      q ''movie_id'' \<noteq> Some (VStr ''m1'') \<or> q ''person_id'' \<noteq> Some (VStr ''p7'')"
    by (simp add: alpha_db_def)
  note inst = character_row_appended_or_dropped [OF ghost, of cast_one "[character_narrator]" "[]"
      alpha_db]
  from inst orph have "add_character cast_one character_ghost = Inr cast_one"
    by blast
  moreover from inst orph
  have "for_each add_character cast_one [character_narrator, character_ghost]
     = for_each add_character cast_one [character_narrator]"
    by simp
  moreover have "build_documents (alpha_db\<lparr>db_characters := [character_ghost]\<rparr>) = Inr [alpha_doc]"
    using character_row_appended_or_dropped [OF ghost, of cast_one "[]" "[]" alpha_db] noprincipal
      build_alpha_db
    by (simp add: alpha_db_def)
  moreover have "add_character cast_one character_narrator =
     Inr [VStr ''m1'' \<mapsto> [(VStr ''p1'', actor_entry\<lparr>characters := [VStr ''Hero'', VStr ''Narrator'']\<rparr>)]]"
    by (simp add: add_character_def cast_one_def character_narrator_def actor_entry_def)
  moreover have "\<exists>inner'. add_character cast_one character_narrator
        = Inr (cast_one(VStr ''m1'' \<mapsto> inner')) \<and>
      map_of inner' (VStr ''p1'') = Some (actor_entry\<lparr>characters := [VStr ''Hero'', VStr ''Narrator'']\<rparr>)"
  proof -
    have narrator: "character_narrator ''movie_id'' = Some (VStr ''m1'')"
      "character_narrator ''person_id'' = Some (VStr ''p1'')"
      "character_narrator ''name'' = Some (VStr ''Narrator'')"
      by (simp_all add: character_narrator_def)
    have entry: "cast_one (VStr ''m1'') = Some [(VStr ''p1'', actor_entry)] \<and>
        map_of [(VStr ''p1'', actor_entry)] (VStr ''p1'') = Some actor_entry"
      by (simp add: cast_one_def)
    have chars: "characters actor_entry @ [VStr ''Narrator''] = [VStr ''Hero'', VStr ''Narrator'']"
      by (simp add: actor_entry_def)
    from character_row_appended_or_dropped [OF narrator, of cast_one "[]" "[]" alpha_db,
        THEN conjunct1, rule_format, OF entry]
    show ?thesis unfolding chars by blast
  qed
  ultimately show ?thesis using orph by blast
qed

text \<open>
  C7. The rating index is built without any check for duplicate keys: when every rating
  row has its three fields the loop of step 2 returns, duplicates or not, and a movie is
  mapped to the average and votes of the last of its rows.
\<close>

theorem rating_last_wins:
  assumes wf: "\<forall>x\<in>set (before @ r # after). x ''average_rating'' \<noteq> None \<and>
      x ''num_votes'' \<noteq> None \<and> x ''movie_id'' \<noteq> None"
    and r: "r ''movie_id'' = Some m" "r ''average_rating'' = Some a" "r ''num_votes'' = Some v"
    and after: "\<forall>r'\<in>set after. r' ''movie_id'' \<noteq> Some m"
  shows "\<exists>ratings_dict. for_each add_rating Map.empty (before @ r # after) = Inr ratings_dict \<and>
           ratings_dict m = Some \<lparr>average = a, votes = v\<rparr>"
proof -
  from ratings_returns [OF wf] obtain ratings_dict
    where run: "for_each add_rating Map.empty (before @ r # after) = Inr ratings_dict"
    by blast
  from ratings_last [OF run r after] run show ?thesis by blast
qed

text \<open>Witness for C7: two rows for the same movie; the second one is in the index.\<close>

theorem rating_last_wins_witness:
  "\<exists>ratings_dict. for_each add_rating Map.empty [rating_first, rating_second] = Inr ratings_dict \<and>
     ratings_dict (VStr ''m1'') = Some \<lparr>average = VNum 7, votes = VNum 1200\<rparr>"
  using rating_last_wins [of "[rating_first]" rating_second "[]" "VStr ''m1''" "VNum 7" "VNum 1200"]
  by (simp add: rating_first_def rating_second_def)



text \<open>
  C9. A run's outcome does not depend on what the destination held: two runs over the
  same source raise the same error or leave the same collection, so a second run after
  a first one rebuilds the same documents; the documents written are those of
  \<open>build_documents\<close>, a function of the source alone.
\<close>

theorem rebuild_idempotent:
  "fst (build_movies_complete db dest) = fst (build_movies_complete db dest') \<and>
   (build_movies_complete db dest = (None, out) \<longrightarrow>
      build_movies_complete db dest' = (None, out) \<and> build_movies_complete db out = (None, out) \<and>
      build_documents db = Inr (coll_docs out) \<and>
      set (coll_docs (snd (build_movies_complete db dest'))) = set (coll_docs out))"
proof (cases "build_documents db")
  case (Inl e)
  then show ?thesis
    by (simp add: build_movies_complete_def build_movies_complete_traced_def)
next
  case (Inr docs)
  have same: "build_movies_complete db c = build_movies_complete db dest" for c
    by (rule run_independent [OF Inr])
  show ?thesis
  proof (intro conjI impI)
    show "fst (build_movies_complete db dest) = fst (build_movies_complete db dest')"
      by (simp add: same [of dest'])
    assume run: "build_movies_complete db dest = (None, out)"
    then show "build_movies_complete db dest' = (None, out)"
      by (simp add: same [of dest'])
    from run show "build_movies_complete db out = (None, out)"
      by (simp add: same [of out])
    from run_returns_docs [OF run] show "build_documents db = Inr (coll_docs out)"
      by simp
    from run show "set (coll_docs (snd (build_movies_complete db dest'))) = set (coll_docs out)"
      by (simp add: same [of dest'])
  qed
qed

text \<open>Witness for C9: a run over a stale collection, then a second run over its result.\<close>

theorem rebuild_idempotent_witness:
  "build_movies_complete alpha_db old_collection = (None, alpha_collection) \<and>
   build_movies_complete alpha_db alpha_collection = (None, alpha_collection) \<and>
   set (coll_docs (snd (build_movies_complete alpha_db alpha_collection))) = {alpha_doc}"
proof -
  have first: "build_movies_complete alpha_db old_collection = (None, alpha_collection)"
    using run_ok [OF build_alpha_db, of old_collection] by (simp add: alpha_collection_def)
  from rebuild_idempotent [of alpha_db old_collection alpha_collection alpha_collection] first
  show ?thesis by (simp add: alpha_collection_def)
qed

text \<open>
  C10, as stated, fails: a movie record that has \<^verbatim>\<open>primary_title\<close> and \<^verbatim>\<open>start_year\<close> but
  no \<^verbatim>\<open>movie_id\<close> makes the assembly raise, at \<^verbatim>\<open>movie["movie_id"]\<close>.
\<close>

theorem assembly_raises_counterexample:
  "assemble Map.empty Map.empty Map.empty Map.empty Map.empty [movie_without_id]
     = Inl (KeyError ''movie_id'') \<and>
   movie_without_id ''primary_title'' \<noteq> None \<and> movie_without_id ''start_year'' \<noteq> None"
  by (simp add: assemble_def make_doc_def movie_without_id_def)

text \<open>
  C10, amended. The assembly raises if and only if some movie record lacks \<^verbatim>\<open>movie_id\<close>,
  \<^verbatim>\<open>primary_title\<close> or \<^verbatim>\<open>start_year\<close>; a record without \<^verbatim>\<open>runtime_minutes\<close> that is
  assembled has a null \<open>runtime\<close>; and a build that raises leaves the destination
  collection as it was.
\<close>

theorem assembly_raises_iff:
  "((\<exists>e. assemble rd gd dd cd wd movies = Inl e) \<longleftrightarrow>
      (\<exists>movie\<in>set movies. movie ''movie_id'' = None \<or> movie ''primary_title'' = None \<or>
         movie ''start_year'' = None)) \<and>
   (make_doc rd gd dd cd wd movie = Inr d \<longrightarrow> movie ''runtime_minutes'' = None \<longrightarrow>
      runtime d = VNone) \<and>
   (build_documents db = Inl e' \<longrightarrow> build_movies_complete db dest = (Some e', dest))"
proof (intro conjI)
  have "(\<exists>e. assemble rd gd dd cd wd movies = Inl e) \<longleftrightarrow>
        \<not> (\<exists>docs. assemble rd gd dd cd wd movies = Inr docs)"
    by (cases "assemble rd gd dd cd wd movies") simp_all
  then show "(\<exists>e. assemble rd gd dd cd wd movies = Inl e) \<longleftrightarrow>
      (\<exists>movie\<in>set movies. movie ''movie_id'' = None \<or> movie ''primary_title'' = None \<or>
         movie ''start_year'' = None)"
    by (simp add: assemble_returns)
  show "make_doc rd gd dd cd wd movie = Inr d \<longrightarrow> movie ''runtime_minutes'' = None \<longrightarrow>
      runtime d = VNone"
    by (auto simp: make_doc_eq_Inr dict_get_def)
  show "build_documents db = Inl e' \<longrightarrow> build_movies_complete db dest = (Some e', dest)"
    by (simp add: build_movies_complete_def build_movies_complete_traced_def)
qed

text \<open>Witness for C10: a record without title raises, a full record without runtime is kept
  with a null runtime, and the failed build leaves the old collection alone.\<close>

theorem assembly_raises_iff_witness:
  "(\<exists>movie\<in>set [movie_alpha, movie_without_title]. movie ''movie_id'' = None \<or>
       movie ''primary_title'' = None \<or> movie ''start_year'' = None) \<and>
   (\<exists>e. assemble Map.empty Map.empty Map.empty Map.empty Map.empty
       [movie_alpha, movie_without_title] = Inl e) \<and>
   movie_alpha ''runtime_minutes'' = None \<and>
   (\<exists>d. make_doc Map.empty Map.empty Map.empty Map.empty Map.empty movie_alpha = Inr d \<and>
      runtime d = VNone) \<and>
   build_documents untitled_db = Inl (KeyError ''primary_title'') \<and>
   build_movies_complete untitled_db old_collection = (Some (KeyError ''primary_title''), old_collection)"
proof -
  have lacks: "\<exists>movie\<in>set [movie_alpha, movie_without_title]. movie ''movie_id'' = None \<or>
       movie ''primary_title'' = None \<or> movie ''start_year'' = None"
    by (simp add: movie_without_title_def)
  have nort: "movie_alpha ''runtime_minutes'' = None"
    by (simp add: movie_alpha_def)
  obtain d where made: "make_doc Map.empty Map.empty Map.empty Map.empty Map.empty movie_alpha = Inr d"
    using make_doc_returns [of Map.empty Map.empty Map.empty Map.empty Map.empty movie_alpha]
    by (auto simp: movie_alpha_def)
  have fails: "build_documents untitled_db = Inl (KeyError ''primary_title'')"
    by (simp add: build_documents_def untitled_db_def assemble_def make_doc_def
        movie_without_title_def)
  note inst = assembly_raises_iff [of Map.empty Map.empty Map.empty Map.empty Map.empty
      "[movie_alpha, movie_without_title]" movie_alpha d untitled_db "KeyError ''primary_title''"
      old_collection]
  from inst lacks have "\<exists>e. assemble Map.empty Map.empty Map.empty Map.empty Map.empty
       [movie_alpha, movie_without_title] = Inl e"
    by blast
  moreover from inst made nort have "runtime d = VNone"
    by blast
  moreover from inst fails
  have "build_movies_complete untitled_db old_collection = (Some (KeyError ''primary_title''), old_collection)"
    by blast
  ultimately show ?thesis
    using lacks nort made fails by blast
qed

end
